theory Spec2Isabelle
  imports Main
begin

section \<open>JavaScript values\<close>

text \<open>
  The handlers of \<^verbatim>\<open>src/server.js\<close> and \<^verbatim>\<open>src/server-production.js\<close> read their
  inputs from a parsed JSON body and answer with \<^verbatim>\<open>res.json\<close>. In the handlers a
  JavaScript string is modelled as a HOL \<^typ>\<open>string\<close> whose characters are the code units
  U+0000 to U+00FF (Basic Latin and Latin-1 Supplement, which covers the Portuguese texts
  of this application). The ingredient normalizer is modelled twice: on these strings,
  for the handlers, and on lists of UTF-16 code units, which are all the strings of
  JavaScript; the first model is the second one on the strings below U+0100.
  A JSON number is modelled by an integer: the handlers only test whether it is zero.
  A destructured property that the body does not have is \<open>JUndefined\<close>.
\<close>

datatype jsval =
    JUndefined
  | JNull
  | JBool bool
  | JNum int
  | JStr string
  | JArr "jsval list"
  | JObj "(string \<times> jsval) list"

text \<open>The truth value JavaScript gives a value in \<^verbatim>\<open>!v\<close> and \<^verbatim>\<open>v ? a : b\<close>.\<close>

fun truthy :: "jsval \<Rightarrow> bool" where
  "truthy JUndefined = False"
| "truthy JNull = False"
| "truthy (JBool b) = b"
| "truthy (JNum n) = (n \<noteq> 0)"
| "truthy (JStr s) = (s \<noteq> [])"
| "truthy (JArr vs) = True"
| "truthy (JObj kvs) = True"

text \<open>
  \<^verbatim>\<open>const { name } = req.body\<close>: the own property of that name, \<^verbatim>\<open>undefined\<close> when
  the object has none. The list holds the properties of the parsed body, one per name.
\<close>

definition field :: "(string \<times> jsval) list \<Rightarrow> string \<Rightarrow> jsval" where
  "field obj name = (case map_of obj name of None \<Rightarrow> JUndefined | Some v \<Rightarrow> v)"

text \<open>The decimal numeral a template literal \<^verbatim>\<open>`${n}`\<close> prints for a counter.\<close>

definition digit_char :: "nat \<Rightarrow> char" where
  "digit_char d = char_of (48 + d)"

fun decimal :: "nat \<Rightarrow> string" where
  "decimal n = (if n < 10 then [digit_char n] else decimal (n div 10) @ [digit_char (n mod 10)])"

declare decimal.simps [simp del]

section \<open>The ingredient normalizer\<close>

text \<open>
  \<^verbatim>\<open>
  const ingredientList = ingredients
    .split(",")
    .map((ingredient) => ingredient.trim().toLowerCase())
    .filter((ingredient) => ingredient.length > 0);
  \<close>
\<close>

subsection \<open>The normalizer on strings below U+0100\<close>

text \<open>
  \<^verbatim>\<open>s.split(sep)\<close> for a one-character separator: the pieces between the separators,
  empty pieces included; the empty string gives one empty piece.
\<close>

fun split :: "'a \<Rightarrow> 'a list \<Rightarrow> 'a list list" where
  "split sep [] = [[]]"
| "split sep (x # xs) =
     (if x = sep then [] # split sep xs
      else (case split sep xs of [] \<Rightarrow> [[x]] | p # ps \<Rightarrow> (x # p) # ps))"

text \<open>
  The code units below U+0100 that \<^verbatim>\<open>trim\<close> removes: TAB, LF, VT, FF, CR, SPACE and
  NO-BREAK SPACE.
\<close>

definition is_whitespace :: "char \<Rightarrow> bool" where
  "is_whitespace c = (of_char c \<in> {9, 10, 11, 12, 13, 32, 160 :: nat})"

definition trim :: "string \<Rightarrow> string" where
  "trim s = rev (dropWhile is_whitespace (rev (dropWhile is_whitespace s)))"

text \<open>
  \<^verbatim>\<open>toLowerCase\<close> on code units below U+0100: A to Z and the Latin-1 capitals U+00C0 to
  U+00DE, the multiplication sign U+00D7 excepted, move up by 32; every other code unit
  is its own lower case.
\<close>

definition lower_char :: "char \<Rightarrow> char" where
  "lower_char c =
     (let n = (of_char c :: nat)
      in if (65 \<le> n \<and> n \<le> 90) \<or> (192 \<le> n \<and> n \<le> 222 \<and> n \<noteq> 215)
         then char_of (n + 32) else c)"

definition toLowerCase :: "string \<Rightarrow> string" where
  "toLowerCase s = map lower_char s"

definition ingredientList :: "string \<Rightarrow> string list" where
  "ingredientList ingredients =
     filter (\<lambda>ingredient. length ingredient > 0)
       (map (\<lambda>ingredient. toLowerCase (trim ingredient))
         (split CHR '','' ingredients))"

subsection \<open>The normalizer on UTF-16 strings\<close>

text \<open>
  A JavaScript string is a sequence of UTF-16 code units, numbers below 65536. The same
  four lines on such strings: \<^verbatim>\<open>split(",")\<close> cuts at the code unit U+002C; \<^verbatim>\<open>trim\<close>
  removes the WhiteSpace and LineTerminator code points of ECMAScript at both ends, which
  are single code units: TAB, LF, VT, FF, CR, SPACE, NO-BREAK SPACE, U+1680, U+2000 to
  U+200A, U+2028, U+2029, U+202F, U+205F, U+3000 and U+FEFF.
\<close>

type_synonym code_unit = nat

definition units :: "string \<Rightarrow> code_unit list" where
  "units s = map of_char s"

definition is_whitespace_unit :: "code_unit \<Rightarrow> bool" where
  "is_whitespace_unit u =
     (u = 0x09 \<or> u = 0x0A \<or> u = 0x0B \<or> u = 0x0C \<or> u = 0x0D \<or> u = 0x20 \<or> u = 0xA0
      \<or> u = 0x1680 \<or> (0x2000 \<le> u \<and> u \<le> 0x200A) \<or> u = 0x2028 \<or> u = 0x2029
      \<or> u = 0x202F \<or> u = 0x205F \<or> u = 0x3000 \<or> u = 0xFEFF)"

definition trim_units :: "code_unit list \<Rightarrow> code_unit list" where
  "trim_units s = rev (dropWhile is_whitespace_unit (rev (dropWhile is_whitespace_unit s)))"

text \<open>
  \<^verbatim>\<open>toLowerCase\<close> is the default lower-casing of Unicode. On a string whose code units are
  all below U+0100 it changes each code unit by itself: A to Z and U+00C0 to U+00DE,
  U+00D7 excepted, move up by 32. On a string with a code unit from U+0100 on it gives
  what the Unicode tables of the engine give (there a capital may become two code units,
  and a sigma depends on its neighbours); these tables are not in the repository, so the
  lower-casing of such strings is the parameter \<open>L\<close>.
\<close>

definition lower_unit :: "code_unit \<Rightarrow> code_unit" where
  "lower_unit u =
     (if (0x41 \<le> u \<and> u \<le> 0x5A) \<or> (0xC0 \<le> u \<and> u \<le> 0xDE \<and> u \<noteq> 0xD7)
      then u + 0x20 else u)"

definition toLowerCase_units ::
  "(code_unit list \<Rightarrow> code_unit list) \<Rightarrow> code_unit list \<Rightarrow> code_unit list" where
  "toLowerCase_units L s = (if list_all (\<lambda>u. u < 0x100) s then map lower_unit s else L s)"

definition ingredientList_units ::
  "(code_unit list \<Rightarrow> code_unit list) \<Rightarrow> code_unit list \<Rightarrow> code_unit list list" where
  "ingredientList_units L ingredients =
     filter (\<lambda>ingredient. length ingredient > 0)
       (map (\<lambda>ingredient. toLowerCase_units L (trim_units ingredient))
         (split 0x2C ingredients))"

section \<open>The pantry table and the storage layer\<close>

text \<open>
  \<^verbatim>\<open>
  CREATE TABLE IF NOT EXISTS pantry (
    id INTEGER PRIMARY KEY AUTOINCREMENT,      -- id SERIAL PRIMARY KEY in production
    ingredient TEXT NOT NULL UNIQUE,
    has_item BOOLEAN DEFAULT 1,                -- DEFAULT true in production
    created_at DATETIME DEFAULT CURRENT_TIMESTAMP
  )
  \<close>
  \<open>has_item\<close> is a nullable column: \<open>None\<close> is NULL, \<open>Some False\<close> is 0 (false) and
  \<open>Some True\<close> is 1 (true). Timestamps are natural numbers.
\<close>

record pantry_row =
  row_id :: nat
  ingredient :: string
  has_item :: "bool option"
  created_at :: nat

definition has_item_default :: "bool option" where
  "has_item_default = Some True"

text \<open>The statements the handlers issue, with their bound parameters.\<close>

datatype statement =
    SelectPantry string
  | InsertPantry string
  | InsertOrReplacePantry string bool
  | InsertOnConflictUpdatePantry string "bool option"

text \<open>
  The database: the rows of \<open>pantry\<close> in the order of their insertion, the largest id
  handed out so far (\<^verbatim>\<open>sqlite_sequence\<close>, or the sequence behind \<^verbatim>\<open>SERIAL\<close>), and the
  statements issued on the connection so far, oldest first.
\<close>

record db =
  pantry :: "pantry_row list"
  seq :: nat
  calls :: "statement list"

text \<open>
  What the code does not decide: whether the \<open>n\<close>-th statement issued on the connection
  fails in the storage layer (and with which message), the value of
  \<^verbatim>\<open>CURRENT_TIMESTAMP\<close> when it runs, and how the database driver binds a value that is
  not of the column's type (a truthy non-string for \<open>ingredient\<close>, a non-boolean for
  the production \<open>has_item\<close>).
\<close>

record env =
  faults :: "nat \<Rightarrow> string option"
  timestamps :: "nat \<Rightarrow> nat"
  bind_text :: "jsval \<Rightarrow> string"
  bind_boolean :: "jsval \<Rightarrow> string + bool option"

definition has_row :: "db \<Rightarrow> string \<Rightarrow> bool" where
  "has_row d k = (k \<in> set (map ingredient (pantry d)))"

definition rows_of :: "db \<Rightarrow> string \<Rightarrow> pantry_row list" where
  "rows_of d k = filter (\<lambda>r. ingredient r = k) (pantry d)"

text \<open>
  \<^verbatim>\<open>db.get("SELECT * FROM pantry WHERE ingredient = ?", [ingredient], (err, row) => ...)\<close>:
  an error, or the first matching row, or no row. The comparison is the exact one of
  SQLite's default collation.
\<close>

definition db_get :: "env \<Rightarrow> db \<Rightarrow> string \<Rightarrow> db \<times> (string + pantry_row option)" where
  "db_get e d k =
     (let d' = d\<lparr>calls := calls d @ [SelectPantry k]\<rparr>
      in case faults e (length (calls d)) of
           Some err \<Rightarrow> (d', Inl err)
         | None \<Rightarrow> (d', Inr (find (\<lambda>r. ingredient r = k) (pantry d))))"

text \<open>
  \<^verbatim>\<open>AUTOINCREMENT\<close>: one more than the largest id that ever existed in the table.
\<close>

definition next_rowid :: "db \<Rightarrow> nat" where
  "next_rowid d = Suc (fold max (map row_id (pantry d)) (seq d))"

text \<open>
  \<^verbatim>\<open>db.run("INSERT INTO pantry (ingredient, has_item) VALUES (?, 0)", [ingredient], function (err) ...)\<close>:
  the \<^verbatim>\<open>UNIQUE\<close> constraint on \<open>ingredient\<close> rejects a second row of the same key.
\<close>

definition db_run_insert :: "env \<Rightarrow> db \<Rightarrow> string \<Rightarrow> db \<times> string option" where
  "db_run_insert e d k =
     (let n = length (calls d);
          d' = d\<lparr>calls := calls d @ [InsertPantry k]\<rparr>
      in case faults e n of
           Some err \<Rightarrow> (d', Some err)
         | None \<Rightarrow>
             if has_row d k
             then (d', Some ''SQLITE_CONSTRAINT: UNIQUE constraint failed: pantry.ingredient'')
             else (d'\<lparr>pantry := pantry d @
                        [\<lparr>row_id = next_rowid d, ingredient = k,
                          has_item = Some False, created_at = timestamps e n\<rparr>],
                      seq := next_rowid d\<rparr>, None))"

text \<open>
  \<^verbatim>\<open>db.run("INSERT OR REPLACE INTO pantry (ingredient, has_item) VALUES (?, ?)", ...)\<close>:
  the rows in conflict on \<open>ingredient\<close> are deleted and a new row is inserted, with
  a new id and the current timestamp.
\<close>

definition db_run_insert_or_replace :: "env \<Rightarrow> db \<Rightarrow> string \<Rightarrow> bool \<Rightarrow> db \<times> string option" where
  "db_run_insert_or_replace e d k b =
     (let n = length (calls d);
          d' = d\<lparr>calls := calls d @ [InsertOrReplacePantry k b]\<rparr>
      in case faults e n of
           Some err \<Rightarrow> (d', Some err)
         | None \<Rightarrow>
             (d'\<lparr>pantry := filter (\<lambda>r. ingredient r \<noteq> k) (pantry d) @
                        [\<lparr>row_id = next_rowid d, ingredient = k,
                          has_item = Some b, created_at = timestamps e n\<rparr>],
                  seq := next_rowid d\<rparr>, None))"

text \<open>
  \<^verbatim>\<open>pool.query("INSERT INTO pantry (ingredient, has_item) VALUES ($1, $2)
     ON CONFLICT (ingredient) DO UPDATE SET has_item = $2", [ingredient, has_item])\<close>:
  the sequence advances for the proposed row; a row of the same key is updated in place,
  otherwise the proposed row is inserted, unless its id is taken.
\<close>

definition pool_query_upsert :: "env \<Rightarrow> db \<Rightarrow> string \<Rightarrow> bool option \<Rightarrow> db \<times> string option" where
  "pool_query_upsert e d k v =
     (let n = length (calls d);
          d' = d\<lparr>calls := calls d @ [InsertOnConflictUpdatePantry k v]\<rparr>
      in case faults e n of
           Some err \<Rightarrow> (d', Some err)
         | None \<Rightarrow>
             if has_row d k
             then (d'\<lparr>pantry := map (\<lambda>r. if ingredient r = k then r\<lparr>has_item := v\<rparr> else r) (pantry d),
                      seq := Suc (seq d)\<rparr>, None)
             else if Suc (seq d) \<in> set (map row_id (pantry d))
             then (d'\<lparr>seq := Suc (seq d)\<rparr>,
                   Some (''duplicate key value violates unique constraint '' @ [CHR 0x22]
                           @ ''pantry_pkey'' @ [CHR 0x22]))
             else (d'\<lparr>pantry := pantry d @
                        [\<lparr>row_id = Suc (seq d), ingredient = k,
                          has_item = v, created_at = timestamps e n\<rparr>],
                      seq := Suc (seq d)\<rparr>, None))"

section \<open>Responses\<close>

datatype js_error = TypeError string

text \<open>
  \<^verbatim>\<open>res.status(n).json(v)\<close> (status 200 without \<^verbatim>\<open>status\<close>), or an exception that
  leaves the handler.
\<close>

datatype response = Reply nat jsval | Uncaught js_error

section \<open>The ingredient reconciler (src/server.js)\<close>

text \<open>The counters \<^verbatim>\<open>processedCount\<close> and \<^verbatim>\<open>addedToShoppingList\<close> of the handler.\<close>

record counters =
  processedCount :: nat
  addedToShoppingList :: nat

text \<open>
  \<^verbatim>\<open>processIngredient(ingredient, callback)\<close>: the last component is the argument of
  the callback, \<open>Some err\<close> for \<^verbatim>\<open>callback(err)\<close> and \<open>None\<close> for \<^verbatim>\<open>callback(null)\<close>.
\<close>

definition processIngredient ::
  "env \<Rightarrow> db \<Rightarrow> counters \<Rightarrow> string \<Rightarrow> db \<times> counters \<times> string option" where
  "processIngredient e d c ing =
     (case db_get e d ing of
        (d1, Inl err) \<Rightarrow> (d1, c, Some err)
      | (d1, Inr (Some row)) \<Rightarrow> (d1, c\<lparr>processedCount := processedCount c + 1\<rparr>, None)
      | (d1, Inr None) \<Rightarrow>
          (case db_run_insert e d1 ing of
             (d2, Some err) \<Rightarrow> (d2, c, Some err)
           | (d2, None) \<Rightarrow>
               (d2, c\<lparr>processedCount := processedCount c + 1,
                      addedToShoppingList := addedToShoppingList c + 1\<rparr>, None)))"

definition summary :: "counters \<Rightarrow> string list \<Rightarrow> jsval" where
  "summary c ings =
     JObj [(''message'', JStr (''Processados '' @ decimal (processedCount c) @ '' ingredientes'')),
           (''addedToShoppingList'', JNum (int (addedToShoppingList c))),
           (''ingredients'', JArr (map JStr ings))]"

definition error_body :: "string \<Rightarrow> jsval" where
  "error_body msg = JObj [(''error'', JStr msg)]"

text \<open>
  \<^verbatim>\<open>processNext\<close>, with the list \<^verbatim>\<open>ingredientList\<close> (here \<open>ings\<close>) and the variable
  \<^verbatim>\<open>index\<close> as arguments.
\<close>

function processNext ::
  "env \<Rightarrow> string list \<Rightarrow> db \<Rightarrow> counters \<Rightarrow> nat \<Rightarrow> db \<times> counters \<times> response" where
  "processNext e ings d c index =
     (if index \<ge> length ings
      then (d, c, Reply 200 (summary c ings))
      else (case processIngredient e d c (ings ! index) of
              (d', c', Some err) \<Rightarrow> (d', c', Reply 500 (error_body err))
            | (d', c', None) \<Rightarrow> processNext e ings d' c' (index + 1)))"
  by pat_completeness auto
termination
  by (relation "measure (\<lambda>(e, ings, d, c, index). length ings - index)") auto

declare processNext.simps [simp del]

text \<open>\<^verbatim>\<open>app.post("/api/recipes/:id/process-ingredients", ...)\<close>\<close>

definition process_ingredients :: "env \<Rightarrow> db \<Rightarrow> (string \<times> jsval) list \<Rightarrow> db \<times> response" where
  "process_ingredients e d body =
     (let ingredients = field body ''ingredients''
      in if \<not> truthy ingredients
         then (d, Reply 400 (error_body
                 (''Lista de ingredientes '' @ [CHR 0xE9] @ '' obrigat'' @ [CHR 0xF3] @ ''ria'')))
         else (case ingredients of
                 JStr s \<Rightarrow>
                   (case processNext e (ingredientList s) d
                           \<lparr>processedCount = 0, addedToShoppingList = 0\<rparr> 0 of
                      (d', c', r) \<Rightarrow> (d', r))
               | _ \<Rightarrow> (d, Uncaught (TypeError ''ingredients.split is not a function''))))"

section \<open>The pantry upsert endpoints\<close>

definition text_param :: "env \<Rightarrow> jsval \<Rightarrow> string" where
  "text_param e v = (case v of JStr s \<Rightarrow> s | _ \<Rightarrow> bind_text e v)"

definition message_body :: "string \<Rightarrow> jsval" where
  "message_body msg = JObj [(''message'', JStr msg)]"

definition ingredient_required :: string where
  "ingredient_required = ''Ingrediente '' @ [CHR 0xE9] @ '' obrigat'' @ [CHR 0xF3] @ ''rio''"

text \<open>\<^verbatim>\<open>app.post("/api/pantry", ...)\<close> of src/server.js (SQLite).\<close>

definition post_pantry :: "env \<Rightarrow> db \<Rightarrow> (string \<times> jsval) list \<Rightarrow> db \<times> response" where
  "post_pantry e d body =
     (let ingredient = field body ''ingredient'';
          has_item = field body ''has_item''
      in if \<not> truthy ingredient
         then (d, Reply 400 (error_body ingredient_required))
         else (case db_run_insert_or_replace e d (text_param e ingredient)
                      (if truthy has_item then True else False) of
                 (d', Some err) \<Rightarrow> (d', Reply 500 (error_body err))
               | (d', None) \<Rightarrow>
                   (d', Reply 200 (message_body ''Item da despensa atualizado com sucesso!''))))"

text \<open>
  \<^verbatim>\<open>app.post("/api/pantry", ...)\<close> of src/server-production.js (PostgreSQL). The driver
  sends \<^verbatim>\<open>undefined\<close> and \<^verbatim>\<open>null\<close> as NULL and a boolean as itself; a value that the
  database does not take for a boolean makes the statement fail, and the \<^verbatim>\<open>catch\<close> of the
  handler answers with status 500.
\<close>

definition boolean_param :: "env \<Rightarrow> jsval \<Rightarrow> string + bool option" where
  "boolean_param e v =
     (case v of JUndefined \<Rightarrow> Inr None | JNull \<Rightarrow> Inr None | JBool b \<Rightarrow> Inr (Some b)
      | _ \<Rightarrow> bind_boolean e v)"

definition post_pantry_production :: "env \<Rightarrow> db \<Rightarrow> (string \<times> jsval) list \<Rightarrow> db \<times> response" where
  "post_pantry_production e d body =
     (let ingredient = field body ''ingredient'';
          has_item = field body ''has_item''
      in if \<not> truthy ingredient
         then (d, Reply 400 (error_body ingredient_required))
         else (case boolean_param e has_item of
                 Inl err \<Rightarrow>
                   (d\<lparr>calls := calls d @ [InsertOnConflictUpdatePantry (text_param e ingredient) None]\<rparr>,
                    Reply 500 (error_body err))
               | Inr v \<Rightarrow>
                   (case pool_query_upsert e d (text_param e ingredient) v of
                      (d', Some err) \<Rightarrow> (d', Reply 500 (error_body err))
                    | (d', None) \<Rightarrow>
                        (d', Reply 200 (message_body ''Item da despensa atualizado com sucesso!'')))))"

section \<open>Auxiliary definitions for the statements\<close>

text \<open>
  The loop of \<open>processNext\<close> as a recursion over the ingredients still to process:
  each one goes through \<open>processIngredient\<close>, in order, and the first error stops the
  loop. Lemma \<open>processNext_process_each\<close> relates the two.
\<close>

fun process_each :: "env \<Rightarrow> db \<Rightarrow> counters \<Rightarrow> string list \<Rightarrow> db \<times> counters \<times> string option" where
  "process_each e d c [] = (d, c, None)"
| "process_each e d c (k # ks) =
     (case processIngredient e d c k of
        (d', c', Some err) \<Rightarrow> (d', c', Some err)
      | (d', c', None) \<Rightarrow> process_each e d' c' ks)"

text \<open>The ingredient a statement is about.\<close>

fun statement_key :: "statement \<Rightarrow> string" where
  "statement_key (SelectPantry k) = k"
| "statement_key (InsertPantry k) = k"
| "statement_key (InsertOrReplacePantry k b) = k"
| "statement_key (InsertOnConflictUpdatePantry k v) = k"

text \<open>How \<open>processNext\<close> answers once the loop has ended.\<close>

definition finish :: "string list \<Rightarrow> db \<times> counters \<times> string option \<Rightarrow> db \<times> counters \<times> response" where
  "finish ings r =
     (case r of
        (d', c', Some err) \<Rightarrow> (d', c', Reply 500 (error_body err))
      | (d', c', None) \<Rightarrow> (d', c', Reply 200 (summary c' ings)))"

text \<open>
  The property \<open>name\<close> of the JSON object a reply carries, \<^verbatim>\<open>undefined\<close> when the body has
  no such property.
\<close>

fun reply_field :: "response \<Rightarrow> string \<Rightarrow> jsval" where
  "reply_field (Reply n (JObj kvs)) name = field kvs name"
| "reply_field r name = JUndefined"

text \<open>The pantry as the mapping from ingredient to \<open>has_item\<close> that its rows give.\<close>

definition availability :: "db \<Rightarrow> string \<rightharpoonup> bool option" where
  "availability d = map_of (map (\<lambda>r. (ingredient r, has_item r)) (pantry d))"

text \<open>
  The sequence behind \<^verbatim>\<open>SERIAL\<close> is not behind the ids of the table: every id was drawn
  from it. This holds of the empty table and the production upsert keeps it.
\<close>

definition sequence_ahead :: "db \<Rightarrow> bool" where
  "sequence_ahead d = list_all (\<lambda>r. row_id r \<le> seq d) (pantry d)"

text \<open>
  No two stored \<open>ingredient\<close> values agree once trimmed and lower-cased, and no two
  agree exactly.
\<close>

definition case_insensitive_unique :: "db \<Rightarrow> bool" where
  "case_insensitive_unique d =
     distinct (map (\<lambda>r. toLowerCase (trim (ingredient r))) (pantry d))"

definition exactly_unique :: "db \<Rightarrow> bool" where
  "exactly_unique d = distinct (map ingredient (pantry d))"

text \<open>Environments for the examples: no statement fails, or exactly the \<open>n\<close>-th does.\<close>

definition reliable :: env where
  "reliable =
     \<lparr>faults = (\<lambda>n. None), timestamps = (\<lambda>n. 1000 + n),
      bind_text = (\<lambda>v. ''[object Object]''),
      bind_boolean = (\<lambda>v. Inl ''invalid input syntax for type boolean'')\<rparr>"

definition failing_at :: "nat \<Rightarrow> env" where
  "failing_at k = reliable\<lparr>faults := (\<lambda>n. if n = k then Some ''SQLITE_IOERR: disk I/O error'' else None)\<rparr>"

text \<open>
  A lower-casing beyond U+0100 for the examples: U+0130 becomes the two code units
  U+0069 U+0307, Greek capitals U+0391 to U+03A1 move up by 32.
\<close>

definition sample_lower :: "code_unit list \<Rightarrow> code_unit list" where
  "sample_lower s =
     concat (map (\<lambda>u. if u = 0x130 then [0x69, 0x307]
                       else if 0x391 \<le> u \<and> u \<le> 0x3A1 then [u + 0x20]
                       else [lower_unit u]) s)"

definition feijao :: string where
  "feijao = ''feij'' @ [CHR 0xE3] @ ''o''"

definition arroz_db :: db where
  "arroz_db =
     \<lparr>pantry = [\<lparr>row_id = 1, ingredient = ''arroz'', has_item = Some True, created_at = 0\<rparr>],
      seq = 1, calls = []\<rparr>"

definition empty_db :: db where
  "empty_db = \<lparr>pantry = [], seq = 0, calls = []\<rparr>"

definition zero :: counters where
  "zero = \<lparr>processedCount = 0, addedToShoppingList = 0\<rparr>"

section \<open>Properties of the normalizer\<close>

lemma split_not_Nil: "split sep s \<noteq> []"
  by (induction s) (auto split: list.splits)

lemma split_append: "split sep (s @ sep # t) = split sep s @ split sep t"
proof (induction s)
  case Nil
  show ?case by simp
next
  case (Cons x s)
  obtain p ps where "split sep s = p # ps"
    using split_not_Nil [of sep s] by (cases "split sep s") auto
  with Cons show ?case by simp
qed

lemma split_no_sep: "sep \<notin> set p \<Longrightarrow> split sep p = [p]"
  by (induction p) auto

lemma split_pieces: "p \<in> set (split sep s) \<Longrightarrow> sep \<notin> set p"
  by (induction s arbitrary: p) (auto split: if_splits list.splits)

lemma split_map:
  assumes "inj f"
  shows "split (f sep) (map f s) = map (map f) (split sep s)"
proof (induction s)
  case Nil
  show ?case by simp
next
  case (Cons x s)
  obtain p ps where "split sep s = p # ps"
    using split_not_Nil [of sep s] by (cases "split sep s") auto
  moreover from assms have "f x = f sep \<longleftrightarrow> x = sep" by (simp add: inj_eq)
  ultimately show ?case using Cons by simp
qed

subsection \<open>Removing a prefix and a suffix\<close>

lemma dropWhile_fix: "xs = [] \<or> \<not> P (hd xs) \<Longrightarrow> dropWhile P xs = xs"
  by (cases xs) auto

lemma strip_decompose:
  "\<exists>a b. s = a @ rev (dropWhile P (rev (dropWhile P s))) @ b
     \<and> list_all P a \<and> list_all P b"
proof -
  let ?a = "takeWhile P s"
  let ?u = "dropWhile P s"
  let ?b = "rev (takeWhile P (rev ?u))"
  have "rev (rev ?u) = rev (takeWhile P (rev ?u) @ dropWhile P (rev ?u))"
    by (simp only: takeWhile_dropWhile_id)
  then have u: "?u = rev (dropWhile P (rev ?u)) @ ?b"
    by (simp only: rev_append rev_rev_ident)
  have "s = ?a @ ?u" by simp
  with u have "s = ?a @ rev (dropWhile P (rev ?u)) @ ?b" by metis
  moreover have "list_all P ?a"
    by (metis list_all_iff set_takeWhileD)
  moreover have "list_all P ?b"
    by (metis list_all_iff set_rev set_takeWhileD)
  ultimately show ?thesis by blast
qed

lemma strip_ends:
  assumes "rev (dropWhile P (rev (dropWhile P s))) \<noteq> []"
  shows "\<not> P (hd (rev (dropWhile P (rev (dropWhile P s)))))"
    and "\<not> P (last (rev (dropWhile P (rev (dropWhile P s)))))"
proof -
  let ?u = "dropWhile P s"
  let ?w = "dropWhile P (rev ?u)"
  from assms have w: "?w \<noteq> []" by simp
  then have "\<not> P (hd ?w)" by (metis hd_dropWhile)
  with w show "\<not> P (last (rev ?w))" by (simp add: last_rev)
  have u: "?u \<noteq> []"
    using w by (metis dropWhile.simps(1) rev.simps(1))
  then have hu: "\<not> P (hd ?u)" by (metis hd_dropWhile)
  have "last ?w = last (rev ?u)"
    using w by (metis last_appendR takeWhile_dropWhile_id)
  also have "\<dots> = hd ?u" using u by (simp add: last_rev)
  finally have "last ?w = hd ?u" .
  with hu w show "\<not> P (hd (rev ?w))" by (simp add: hd_rev)
qed

lemma strip_fix:
  assumes "s = [] \<or> (\<not> P (hd s) \<and> \<not> P (last s))"
  shows "rev (dropWhile P (rev (dropWhile P s))) = s"
proof (cases "s = []")
  case True
  then show ?thesis by simp
next
  case False
  with assms have h: "\<not> P (hd s)" and l: "\<not> P (last s)" by auto
  from h False have "dropWhile P s = s" by (simp add: dropWhile_fix)
  moreover from l False have "dropWhile P (rev s) = rev s"
    by (simp add: dropWhile_fix hd_rev)
  ultimately show ?thesis by simp
qed

lemma strip_idem:
  "rev (dropWhile P (rev (dropWhile P (rev (dropWhile P (rev (dropWhile P s))))))) =
     rev (dropWhile P (rev (dropWhile P s)))"
  using strip_ends [of P s] by (intro strip_fix) blast

lemma strip_map:
  "rev (dropWhile P (rev (dropWhile P (map f s)))) =
     map f (rev (dropWhile (P \<circ> f) (rev (dropWhile (P \<circ> f) s))))"
  by (simp add: dropWhile_map rev_map)

lemma set_strip: "set (rev (dropWhile P (rev (dropWhile P s)))) \<subseteq> set s"
  using strip_decompose [of s P] by (metis Un_iff set_append subsetI)

subsection \<open>The tables of the code units\<close>

lemma is_whitespace_unit_table:
  "is_whitespace_unit u \<longleftrightarrow>
     u \<in> set [9, 10, 11, 12, 13, 32, 160, 5760, 8192, 8193, 8194, 8195, 8196, 8197, 8198,
              8199, 8200, 8201, 8202, 8232, 8233, 8239, 8287, 12288, 65279]"
  unfolding is_whitespace_unit_def by (simp del: One_nat_def) arith

lemma lower_unit_table:
  "lower_unit u = (if u \<in> {65..90} \<union> {192..214} \<union> {216..222} then u + 32 else u)"
  by (auto simp: lower_unit_def)

lemma lower_unit_idem: "lower_unit (lower_unit u) = lower_unit u"
  by (simp add: lower_unit_def)

lemma lower_unit_latin1: "u < 256 \<Longrightarrow> lower_unit u < 256"
  by (auto simp: lower_unit_def)

lemma is_whitespace_lower_unit: "is_whitespace_unit (lower_unit u) = is_whitespace_unit u"
  by (simp add: is_whitespace_unit_def lower_unit_def)

lemma lower_unit_comma: "lower_unit u = 44 \<longleftrightarrow> u = 44"
  by (auto simp: lower_unit_def)

lemma comma_lower_units: "44 \<in> set (map lower_unit s) \<longleftrightarrow> 44 \<in> set s"
proof -
  have "44 \<in> set (map lower_unit s) \<longleftrightarrow> (\<exists>x\<in>set s. lower_unit x = 44)"
    unfolding set_map image_iff by metis
  also have "\<dots> \<longleftrightarrow> 44 \<in> set s"
    by (simp add: lower_unit_comma)
  finally show ?thesis .
qed

subsection \<open>The normalizer on UTF-16 strings\<close>

lemma trim_units_decompose:
  "\<exists>a b. p = a @ trim_units p @ b \<and> list_all is_whitespace_unit a \<and> list_all is_whitespace_unit b"
  unfolding trim_units_def by (rule strip_decompose)

lemma trim_units_ends:
  assumes "trim_units p \<noteq> []"
  shows "\<not> is_whitespace_unit (hd (trim_units p))" and "\<not> is_whitespace_unit (last (trim_units p))"
  using assms strip_ends [of is_whitespace_unit p] by (simp_all add: trim_units_def)

lemma trim_units_idem: "trim_units (trim_units p) = trim_units p"
  unfolding trim_units_def by (rule strip_idem)

lemma set_trim_units: "set (trim_units p) \<subseteq> set p"
  unfolding trim_units_def by (rule set_strip)

lemma trim_units_lower:
  "trim_units (map lower_unit p) = map lower_unit (trim_units p)"
  by (simp add: trim_units_def strip_map comp_def is_whitespace_lower_unit)

lemma latin1_trim_units: "list_all (\<lambda>u. u < 256) p \<Longrightarrow> list_all (\<lambda>u. u < 256) (trim_units p)"
  using set_trim_units [of p] by (auto simp: list_all_iff)

lemma latin1_lower: "list_all (\<lambda>u. u < 256) p \<Longrightarrow> list_all (\<lambda>u. u < 256) (map lower_unit p)"
  by (auto simp: list_all_iff lower_unit_latin1)

lemma toLowerCase_units_latin1:
  "list_all (\<lambda>u. u < 256) p \<Longrightarrow> toLowerCase_units L p = map lower_unit p"
  by (simp add: toLowerCase_units_def)

lemma toLowerCase_units_beyond:
  "\<not> list_all (\<lambda>u. u < 256) p \<Longrightarrow> toLowerCase_units L p = L p"
  by (simp add: toLowerCase_units_def)

lemma ingredientList_units_piece:
  "44 \<notin> set p \<Longrightarrow>
     ingredientList_units L p =
       (if toLowerCase_units L (trim_units p) = [] then []
        else [toLowerCase_units L (trim_units p)])"
  by (simp add: ingredientList_units_def split_no_sep)

lemma ingredientList_units_append:
  "ingredientList_units L (s @ 44 # t) = ingredientList_units L s @ ingredientList_units L t"
  by (simp add: ingredientList_units_def split_append)

lemma latin1_split:
  "list_all (\<lambda>u. u < (256::nat)) s \<Longrightarrow> p \<in> set (split sep s) \<Longrightarrow> list_all (\<lambda>u. u < 256) p"
  by (induction s arbitrary: p) (auto split: if_splits list.splits)

lemma ingredientList_units_keys:
  assumes "k \<in> set (ingredientList_units L s)"
  shows "k \<noteq> []"
    and "list_all (\<lambda>u. u < 256) s \<Longrightarrow>
           list_all (\<lambda>u. u < 256) k \<and> 44 \<notin> set k \<and> trim_units k = k
           \<and> toLowerCase_units L k = k"
proof -
  from assms obtain p where p: "p \<in> set (split 44 s)"
    and k: "k = toLowerCase_units L (trim_units p)" and ne: "k \<noteq> []"
    by (auto simp: ingredientList_units_def)
  show "k \<noteq> []" by (rule ne)
  assume latin: "list_all (\<lambda>u. u < 256) s"
  from latin p have "list_all (\<lambda>u. u < 256) p" by (rule latin1_split)
  then have t: "list_all (\<lambda>u. u < 256) (trim_units p)" by (rule latin1_trim_units)
  with k have k': "k = map lower_unit (trim_units p)" by (simp add: toLowerCase_units_latin1)
  with t have lk: "list_all (\<lambda>u. u < 256) k" by (simp add: latin1_lower)
  from p have "44 \<notin> set p" by (rule split_pieces)
  with set_trim_units [of p] have "44 \<notin> set (trim_units p)" by blast
  with k' have comma: "44 \<notin> set k" by (simp only: comma_lower_units not_False_eq_True)
  from k' have tr: "trim_units k = k" by (simp add: trim_units_lower trim_units_idem)
  from lk have "toLowerCase_units L k = map lower_unit k" by (rule toLowerCase_units_latin1)
  with k' have "toLowerCase_units L k = k" by (simp add: lower_unit_idem)
  with lk comma tr show "list_all (\<lambda>u. u < 256) k \<and> 44 \<notin> set k \<and> trim_units k = k
           \<and> toLowerCase_units L k = k" by simp
qed

subsection \<open>The normalizer of the handlers is the one on UTF-16 strings\<close>

lemma of_char_lower_char:
  "of_char (lower_char c) = lower_unit (of_char c)"
  by (auto simp: lower_char_def lower_unit_def Let_def)

lemma is_whitespace_of_char: "is_whitespace_unit (of_char c) = is_whitespace c"
proof -
  have "\<And>n::nat. n < 256 \<Longrightarrow> is_whitespace_unit n = (n \<in> {9, 10, 11, 12, 13, 32, 160})"
    by (auto simp: is_whitespace_unit_def)
  from this [of "of_char c"] show ?thesis by (simp add: is_whitespace_def)
qed

lemma latin1_units: "list_all (\<lambda>u. u < 256) (units s)"
  by (simp add: units_def list_all_iff)

lemma units_trim: "trim_units (units s) = units (trim s)"
  by (simp add: trim_units_def trim_def units_def strip_map comp_def is_whitespace_of_char)

lemma units_toLowerCase: "toLowerCase_units L (units s) = units (toLowerCase s)"
  using latin1_units [of s]
  by (simp add: toLowerCase_units_latin1) (simp add: units_def toLowerCase_def of_char_lower_char)

lemma units_split: "split 44 (units s) = map units (split CHR '','' s)"
proof -
  have "inj (of_char :: char \<Rightarrow> nat)" by (rule inj_of_char)
  from split_map [OF this, of "CHR '',''" s] show ?thesis
    by (simp add: units_def)
qed

lemma units_ingredientList:
  "ingredientList_units L (units s) = map units (ingredientList s)"
proof -
  have "ingredientList_units L (units s) =
      filter (\<lambda>i. i \<noteq> []) (map (\<lambda>p. units (toLowerCase (trim p))) (split CHR '','' s))"
    by (simp add: ingredientList_units_def units_split comp_def units_trim units_toLowerCase)
  also have "\<dots> = map units (filter (\<lambda>i. i \<noteq> []) (map (\<lambda>p. toLowerCase (trim p)) (split CHR '','' s)))"
    by (simp add: filter_map comp_def units_def)
  finally show ?thesis by (simp add: ingredientList_def)
qed

text \<open>
  Claim C5. For every raw input string, a list of UTF-16 code units, the normalizer
  splits on the comma, trims each piece, lowers its case and drops the empty results, in
  order and with repeats kept. Stated by the equations that determine
  \<open>ingredientList_units\<close>: the empty string gives the empty sequence; a piece without
  comma gives its trimmed, lower-cased text, or nothing when that is empty; the result
  for \<open>s,t\<close> is the result for \<open>s\<close> followed by the result for \<open>t\<close>. \<open>trim_units\<close>
  removes a prefix and a suffix of whitespace and leaves a text that neither starts nor
  ends with whitespace, where whitespace is the 25 code units of ECMAScript. Lower-casing
  a piece below U+0100 moves A to Z and U+00C0 to U+00DE, without U+00D7, up by 32 and
  leaves every other code unit; lower-casing any other piece is the lower-casing \<open>L\<close> of
  the engine. Every key produced is non-empty, and for an input below U+0100 it has no
  comma and is already trimmed and lower-cased. The normalizer of the handlers is this
  one on the strings below U+0100. It is a total function with no error result, and
  \<open>"2 ovos, Sal , queijo ralado,,"\<close> gives \<open>["2 ovos", "sal", "queijo ralado"]\<close>.
\<close>

theorem ingredientList_normalizes:
  "ingredientList_units L [] = []
   \<and> (44 \<notin> set p \<longrightarrow>
        ingredientList_units L p =
          (if toLowerCase_units L (trim_units p) = [] then []
           else [toLowerCase_units L (trim_units p)]))
   \<and> ingredientList_units L (s @ 44 # t) = ingredientList_units L s @ ingredientList_units L t
   \<and> (\<exists>a b. p = a @ trim_units p @ b
          \<and> list_all is_whitespace_unit a \<and> list_all is_whitespace_unit b)
   \<and> (trim_units p \<noteq> [] \<longrightarrow>
        \<not> is_whitespace_unit (hd (trim_units p)) \<and> \<not> is_whitespace_unit (last (trim_units p)))
   \<and> (is_whitespace_unit u \<longleftrightarrow>
        u \<in> set [9, 10, 11, 12, 13, 32, 160, 5760, 8192, 8193, 8194, 8195, 8196, 8197, 8198,
                 8199, 8200, 8201, 8202, 8232, 8233, 8239, 8287, 12288, 65279])
   \<and> (list_all (\<lambda>u. u < 256) p \<longrightarrow> toLowerCase_units L p = map lower_unit p)
   \<and> (\<not> list_all (\<lambda>u. u < 256) p \<longrightarrow> toLowerCase_units L p = L p)
   \<and> lower_unit u = (if u \<in> {65..90} \<union> {192..214} \<union> {216..222} then u + 32 else u)
   \<and> (\<forall>k\<in>set (ingredientList_units L s). k \<noteq> [])
   \<and> (list_all (\<lambda>u. u < 256) s \<longrightarrow>
        (\<forall>k\<in>set (ingredientList_units L s).
           list_all (\<lambda>u. u < 256) k \<and> 44 \<notin> set k \<and> trim_units k = k
           \<and> toLowerCase_units L k = k))
   \<and> ingredientList_units L (units r) = map units (ingredientList r)
   \<and> ingredientList_units L (units ''2 ovos, Sal , queijo ralado,,'') =
        map units [''2 ovos'', ''sal'', ''queijo ralado'']
   \<and> toLowerCase_units L (units (''FEIJ'' @ [CHR 0xC3] @ ''O, '' @ [CHR 0xD7, CHR 0xDE, CHR 0xDF]))
        = units (''feij'' @ [CHR 0xE3] @ ''o, '' @ [CHR 0xD7, CHR 0xFE, CHR 0xDF])
   \<and> trim_units [0xFEFF, 0x2003, 0x0A, 0x41, 0x200B, 0x20, 0x85, 0x3000, 0xA0] =
        [0x41, 0x200B, 0x20, 0x85]"
proof (intro conjI)
  show "ingredientList_units L [] = []"
    by (simp add: ingredientList_units_def trim_units_def toLowerCase_units_def)
  show "44 \<notin> set p \<longrightarrow>
        ingredientList_units L p =
          (if toLowerCase_units L (trim_units p) = [] then []
           else [toLowerCase_units L (trim_units p)])"
    by (simp add: ingredientList_units_piece)
  show "ingredientList_units L (s @ 44 # t) = ingredientList_units L s @ ingredientList_units L t"
    by (rule ingredientList_units_append)
  show "\<exists>a b. p = a @ trim_units p @ b
          \<and> list_all is_whitespace_unit a \<and> list_all is_whitespace_unit b"
    by (rule trim_units_decompose)
  show "trim_units p \<noteq> [] \<longrightarrow>
        \<not> is_whitespace_unit (hd (trim_units p)) \<and> \<not> is_whitespace_unit (last (trim_units p))"
    using trim_units_ends [of p] by blast
  show "is_whitespace_unit u \<longleftrightarrow>
        u \<in> set [9, 10, 11, 12, 13, 32, 160, 5760, 8192, 8193, 8194, 8195, 8196, 8197, 8198,
                 8199, 8200, 8201, 8202, 8232, 8233, 8239, 8287, 12288, 65279]"
    by (rule is_whitespace_unit_table)
  show "list_all (\<lambda>u. u < 256) p \<longrightarrow> toLowerCase_units L p = map lower_unit p"
    by (simp add: toLowerCase_units_latin1)
  show "\<not> list_all (\<lambda>u. u < 256) p \<longrightarrow> toLowerCase_units L p = L p"
    by (simp add: toLowerCase_units_beyond)
  show "lower_unit u = (if u \<in> {65..90} \<union> {192..214} \<union> {216..222} then u + 32 else u)"
    by (rule lower_unit_table)
  show "\<forall>k\<in>set (ingredientList_units L s). k \<noteq> []"
    using ingredientList_units_keys(1) [of _ L s] by blast
  show "list_all (\<lambda>u. u < 256) s \<longrightarrow>
        (\<forall>k\<in>set (ingredientList_units L s).
           list_all (\<lambda>u. u < 256) k \<and> 44 \<notin> set k \<and> trim_units k = k
           \<and> toLowerCase_units L k = k)"
    using ingredientList_units_keys(2) [of _ L s] by blast
  show "ingredientList_units L (units r) = map units (ingredientList r)"
    by (rule units_ingredientList)
  have "ingredientList ''2 ovos, Sal , queijo ralado,,'' = [''2 ovos'', ''sal'', ''queijo ralado'']"
    by code_simp
  then show "ingredientList_units L (units ''2 ovos, Sal , queijo ralado,,'') =
        map units [''2 ovos'', ''sal'', ''queijo ralado'']"
    by (simp only: units_ingredientList)
  have "toLowerCase (''FEIJ'' @ [CHR 0xC3] @ ''O, '' @ [CHR 0xD7, CHR 0xDE, CHR 0xDF])
      = ''feij'' @ [CHR 0xE3] @ ''o, '' @ [CHR 0xD7, CHR 0xFE, CHR 0xDF]"
    by code_simp
  then show "toLowerCase_units L (units (''FEIJ'' @ [CHR 0xC3] @ ''O, '' @ [CHR 0xD7, CHR 0xDE, CHR 0xDF]))
        = units (''feij'' @ [CHR 0xE3] @ ''o, '' @ [CHR 0xD7, CHR 0xFE, CHR 0xDF])"
    by (simp only: units_toLowerCase)
  show "trim_units [0xFEFF, 0x2003, 0x0A, 0x41, 0x200B, 0x20, 0x85, 0x3000, 0xA0] =
        [0x41, 0x200B, 0x20, 0x85]"
    by (simp add: trim_units_def is_whitespace_unit_def)
qed

theorem ingredientList_normalizes_witness:
  "44 \<notin> set [32, 83, 97, 108, 32 :: nat]
   \<and> trim_units [32, 83, 97, 108, 32] = [83, 97, 108]
   \<and> \<not> is_whitespace_unit (hd (trim_units [32, 83, 97, 108, 32]))
   \<and> \<not> is_whitespace_unit (last (trim_units [32, 83, 97, 108, 32]))
   \<and> list_all (\<lambda>u. u < 256) [83, 97, 108 :: nat]
   \<and> toLowerCase_units sample_lower [83, 97, 108] = [115, 97, 108]
   \<and> ingredientList_units sample_lower [32, 83, 97, 108, 32] = [[115, 97, 108]]
   \<and> ingredientList_units sample_lower ([50, 32, 111, 118, 111, 115] @ 44 # [32, 83, 97, 108, 32])
        = [[50, 32, 111, 118, 111, 115], [115, 97, 108]]
   \<and> \<not> list_all (\<lambda>u. u < 256) [304, 83 :: nat]
   \<and> toLowerCase_units sample_lower [304, 83] = [105, 775, 115]
   \<and> list_all (\<lambda>u. u < 256) [50, 32, 111, 118, 111, 115, 44, 32, 83, 97, 108, 32 :: nat]
   \<and> [115, 97, 108] \<in> set (ingredientList_units sample_lower
                                [50, 32, 111, 118, 111, 115, 44, 32, 83, 97, 108, 32])
   \<and> trim_units [115, 97, 108] = [115, 97, 108]
   \<and> toLowerCase_units sample_lower [115, 97, 108] = [115, 97, 108]
   \<and> is_whitespace_unit 8195 \<and> \<not> is_whitespace_unit 8203
   \<and> lower_unit 195 = 227 \<and> lower_unit 215 = 215"
proof -
  let ?sal = "[32, 83, 97, 108, 32 :: nat]"
  let ?ovos = "[50, 32, 111, 118, 111, 115 :: nat]"
  let ?both = "[50, 32, 111, 118, 111, 115, 44, 32, 83, 97, 108, 32 :: nat]"
  have h1: "44 \<notin> set ?sal" by simp
  have h2: "trim_units ?sal = [83, 97, 108]"
    by (simp add: trim_units_def is_whitespace_unit_def)
  have h3: "list_all (\<lambda>u. u < 256) [83, 97, 108 :: nat]" by simp
  have h4: "map lower_unit [83, 97, 108] = [115, 97, 108]" by (simp add: lower_unit_def)
  have h5: "44 \<notin> set ?ovos" by simp
  have h6: "trim_units ?ovos = ?ovos" by (simp add: trim_units_def is_whitespace_unit_def)
  have h7: "list_all (\<lambda>u. u < 256) ?ovos" by simp
  have h8: "map lower_unit ?ovos = ?ovos" by (simp add: lower_unit_def)
  have h9: "\<not> list_all (\<lambda>u. u < 256) [304, 83 :: nat]" by simp
  have h10: "sample_lower [304, 83] = [105, 775, 115]"
    by (simp add: sample_lower_def lower_unit_def)
  have h11: "list_all (\<lambda>u. u < 256) ?both" by simp
  from ingredientList_normalizes [of sample_lower "[83, 97, 108]"] h3 h4
  have a: "toLowerCase_units sample_lower [83, 97, 108] = [115, 97, 108]" by simp
  from ingredientList_normalizes [of sample_lower ?ovos] h7 h8
  have a': "toLowerCase_units sample_lower ?ovos = ?ovos" by simp
  from ingredientList_normalizes [of sample_lower ?sal] h1 h2 a
  have b: "ingredientList_units sample_lower ?sal = [[115, 97, 108]]" by simp
  from ingredientList_normalizes [of sample_lower ?ovos] h5 h6 a'
  have b': "ingredientList_units sample_lower ?ovos = [?ovos]" by simp
  from ingredientList_normalizes [of sample_lower _ ?ovos ?sal] b b'
  have c: "ingredientList_units sample_lower (?ovos @ 44 # ?sal) = [?ovos, [115, 97, 108]]"
    by simp
  from ingredientList_normalizes [of sample_lower ?sal] h2
  have d: "\<not> is_whitespace_unit (hd (trim_units ?sal))
      \<and> \<not> is_whitespace_unit (last (trim_units ?sal))" by simp
  from ingredientList_normalizes [of sample_lower "[304, 83]"] h9 h10
  have e: "toLowerCase_units sample_lower [304, 83] = [105, 775, 115]" by simp
  from c have k: "[115, 97, 108] \<in> set (ingredientList_units sample_lower ?both)" by simp
  from ingredientList_normalizes [of sample_lower _ ?both] h11 k
  have f: "trim_units [115, 97, 108] = [115, 97, 108]
      \<and> toLowerCase_units sample_lower [115, 97, 108] = [115, 97, 108]" by blast
  from ingredientList_normalizes [of _ _ _ _ 8195]
  have g: "is_whitespace_unit 8195" by simp
  from ingredientList_normalizes [of _ _ _ _ 8203]
  have g': "\<not> is_whitespace_unit 8203" by simp
  from ingredientList_normalizes [of _ _ _ _ 195]
  have l: "lower_unit 195 = 227" by simp
  from ingredientList_normalizes [of _ _ _ _ 215]
  have l': "lower_unit 215 = 215" by simp
  from h1 h2 d h3 a b c h9 e h11 k f g g' l l' show ?thesis by simp
qed

section \<open>Properties of one reconciliation step\<close>

lemma find_ingredient_None: "find (\<lambda>r. ingredient r = k) (pantry d) = None \<longleftrightarrow> \<not> has_row d k"
  by (auto simp: find_None_iff has_row_def)

lemma processIngredient_unfold:
  "processIngredient e d c k =
     (case faults e (length (calls d)) of
        Some err \<Rightarrow> (d\<lparr>calls := calls d @ [SelectPantry k]\<rparr>, c, Some err)
      | None \<Rightarrow>
          if has_row d k
          then (d\<lparr>calls := calls d @ [SelectPantry k]\<rparr>,
                c\<lparr>processedCount := processedCount c + 1\<rparr>, None)
          else (case faults e (Suc (length (calls d))) of
                  Some err \<Rightarrow> (d\<lparr>calls := calls d @ [SelectPantry k, InsertPantry k]\<rparr>, c, Some err)
                | None \<Rightarrow>
                    (d\<lparr>calls := calls d @ [SelectPantry k, InsertPantry k],
                       pantry := pantry d @
                         [\<lparr>row_id = next_rowid d, ingredient = k, has_item = Some False,
                           created_at = timestamps e (Suc (length (calls d)))\<rparr>],
                       seq := next_rowid d\<rparr>,
                     c\<lparr>processedCount := processedCount c + 1,
                       addedToShoppingList := addedToShoppingList c + 1\<rparr>, None)))"
proof (cases "faults e (length (calls d))")
  case (Some err)
  then show ?thesis by (simp add: processIngredient_def db_get_def)
next
  case None
  show ?thesis
  proof (cases "has_row d k")
    case True
    then obtain row where "find (\<lambda>r. ingredient r = k) (pantry d) = Some row"
      using find_ingredient_None [of k d] by (cases "find (\<lambda>r. ingredient r = k) (pantry d)") auto
    with None True show ?thesis by (simp add: processIngredient_def db_get_def)
  next
    case False
    then have f: "find (\<lambda>r. ingredient r = k) (pantry d) = None"
      by (simp add: find_ingredient_None)
    from False have nr: "\<not> has_row (d\<lparr>calls := calls d @ [SelectPantry k]\<rparr>) k"
      by (simp add: has_row_def)
    show ?thesis
      using None False f nr
      by (cases "faults e (Suc (length (calls d)))")
         (simp_all add: processIngredient_def db_get_def db_run_insert_def next_rowid_def)
  qed
qed

lemma processIngredient_found:
  assumes "processIngredient e d c k = (d', c', None)" and "has_row d k"
  shows "d' = d\<lparr>calls := calls d @ [SelectPantry k]\<rparr>"
    and "c' = c\<lparr>processedCount := processedCount c + 1\<rparr>"
  using assms by (auto simp: processIngredient_unfold split: option.splits)

lemma processIngredient_inserted:
  assumes "processIngredient e d c k = (d', c', None)" and "\<not> has_row d k"
  shows "d' = d\<lparr>calls := calls d @ [SelectPantry k, InsertPantry k],
                pantry := pantry d @
                  [\<lparr>row_id = next_rowid d, ingredient = k, has_item = Some False,
                    created_at = timestamps e (Suc (length (calls d)))\<rparr>],
                seq := next_rowid d\<rparr>"
    and "c' = c\<lparr>processedCount := processedCount c + 1,
                addedToShoppingList := addedToShoppingList c + 1\<rparr>"
  using assms by (auto simp: processIngredient_unfold split: option.splits)

lemma processIngredient_failed:
  assumes "processIngredient e d c k = (d', c', Some err)"
  shows "pantry d' = pantry d" and "seq d' = seq d" and "c' = c"
    and "calls d' = calls d @ [SelectPantry k] \<or> calls d' = calls d @ [SelectPantry k, InsertPantry k]"
  using assms by (auto simp: processIngredient_unfold split: option.splits if_splits)

section \<open>Properties of the reconciliation loop\<close>

lemma processNext_drop:
  "index \<le> length ings \<Longrightarrow>
     processNext e ings d c index = finish ings (process_each e d c (drop index ings))"
proof (induction e ings d c index rule: processNext.induct)
  case (1 e ings d c index)
  show ?case
  proof (cases "index \<ge> length ings")
    case True
    then show ?thesis by (simp add: processNext.simps finish_def)
  next
    case False
    then have lt: "index < length ings" by simp
    then have dr: "drop index ings = ings ! index # drop (Suc index) ings"
      by (simp add: Cons_nth_drop_Suc)
    obtain d' c' r where step: "processIngredient e d c (ings ! index) = (d', c', r)"
      by (cases "processIngredient e d c (ings ! index)") auto
    show ?thesis
    proof (cases r)
      case None
      with 1 False step lt have "processNext e ings d' c' (index + 1) =
          finish ings (process_each e d' c' (drop (index + 1) ings))"
        by simp
      with None step False dr show ?thesis
        by (simp add: processNext.simps [of e ings d c index])
    next
      case (Some err)
      with step False dr show ?thesis
        by (simp add: processNext.simps [of e ings d c index] finish_def)
    qed
  qed
qed

lemma processNext_process_each:
  "processNext e ings d c 0 = finish ings (process_each e d c ings)"
  using processNext_drop [of 0 ings e d c] by simp

lemma process_each_append:
  "process_each e d c (xs @ ys) =
     (case process_each e d c xs of
        (d', c', Some err) \<Rightarrow> (d', c', Some err)
      | (d', c', None) \<Rightarrow> process_each e d' c' ys)"
  by (induction xs arbitrary: d c) (auto split: prod.splits option.splits)

lemma processNext_success:
  "processNext e ings d c 0 = (d', c', Reply 200 body) \<longleftrightarrow>
     process_each e d c ings = (d', c', None) \<and> body = summary c' ings"
  by (auto simp: processNext_process_each finish_def split: prod.splits option.splits)

lemma processNext_failure:
  "processNext e ings d c 0 = (d', c', Reply 500 body) \<longleftrightarrow>
     (\<exists>err. process_each e d c ings = (d', c', Some err) \<and> body = error_body err)"
  by (auto simp: processNext_process_each finish_def split: prod.splits option.splits)

lemma processNext_reply:
  "\<exists>d' c' body. processNext e ings d c 0 = (d', c', Reply 200 body)
      \<or> processNext e ings d c 0 = (d', c', Reply 500 body)"
  by (cases "process_each e d c ings")
     (auto simp: processNext_process_each finish_def split: option.splits)

text \<open>What a run adds, whether it ends in the summary or in an error.\<close>

lemma process_each_rows:
  assumes "process_each e d c ks = (d', c', r)"
  shows "\<exists>news. pantry d' = pantry d @ news
           \<and> list_all (\<lambda>row. has_item row = Some False) news
           \<and> set (map ingredient news) \<subseteq> set ks - set (map ingredient (pantry d))
           \<and> distinct (map ingredient news)
           \<and> addedToShoppingList c' = addedToShoppingList c + length news"
  using assms
proof (induction ks arbitrary: d c)
  case Nil
  then show ?case by simp
next
  case (Cons k ks)
  obtain d1 c1 r1 where step: "processIngredient e d c k = (d1, c1, r1)"
    by (cases "processIngredient e d c k") auto
  show ?case
  proof (cases r1)
    case (Some err)
    with step Cons.prems have "d' = d1" "c' = c1" by auto
    with step Some processIngredient_failed [of e d c k d1 c1 err] show ?thesis by simp
  next
    case None
    with step Cons.prems have rest: "process_each e d1 c1 ks = (d', c', r)" by simp
    from Cons.IH [OF rest] obtain news where news:
      "pantry d' = pantry d1 @ news" "list_all (\<lambda>row. has_item row = Some False) news"
      "set (map ingredient news) \<subseteq> set ks - set (map ingredient (pantry d1))"
      "distinct (map ingredient news)"
      "addedToShoppingList c' = addedToShoppingList c1 + length news"
      by blast
    show ?thesis
    proof (cases "has_row d k")
      case True
      with step None processIngredient_found [of e d c k d1 c1]
      have "pantry d1 = pantry d" "addedToShoppingList c1 = addedToShoppingList c" by simp_all
      with news show ?thesis by (intro exI [of _ news]) auto
    next
      case False
      let ?row = "\<lparr>row_id = next_rowid d, ingredient = k, has_item = Some False,
                     created_at = timestamps e (Suc (length (calls d)))\<rparr>"
      from False step None processIngredient_inserted [of e d c k d1 c1]
      have d1: "pantry d1 = pantry d @ [?row]"
        and c1: "addedToShoppingList c1 = addedToShoppingList c + 1" by simp_all
      from False have k: "k \<notin> set (map ingredient (pantry d))" by (simp add: has_row_def)
      from news d1 c1 k show ?thesis
        by (intro exI [of _ "?row # news"]) auto
    qed
  qed
qed

lemma process_each_success:
  assumes "process_each e d c ks = (d', c', None)"
  shows "processedCount c' = processedCount c + length ks"
    and "\<forall>k\<in>set ks. has_row d' k"
proof -
  have "processedCount c' = processedCount c + length ks \<and> (\<forall>k\<in>set ks. has_row d' k)"
    using assms
  proof (induction ks arbitrary: d c)
    case Nil
    then show ?case by simp
  next
    case (Cons k ks)
    obtain d1 c1 r1 where step: "processIngredient e d c k = (d1, c1, r1)"
      by (cases "processIngredient e d c k") auto
    with Cons.prems have r1: "r1 = None" and rest: "process_each e d1 c1 ks = (d', c', None)"
      by (auto split: option.splits)
    from Cons.IH [OF rest] have ih: "processedCount c' = processedCount c1 + length ks"
      "\<forall>k\<in>set ks. has_row d' k" by simp_all
    from process_each_rows [OF rest] obtain news where news: "pantry d' = pantry d1 @ news"
      by blast
    have "processedCount c1 = processedCount c + 1 \<and> has_row d1 k"
    proof (cases "has_row d k")
      case True
      with step r1 processIngredient_found [of e d c k d1 c1] show ?thesis
        by (simp add: has_row_def)
    next
      case False
      with step r1 processIngredient_inserted [of e d c k d1 c1] show ?thesis
        by (simp add: has_row_def)
    qed
    with ih news show ?case by (auto simp: has_row_def)
  qed
  then show "processedCount c' = processedCount c + length ks" and "\<forall>k\<in>set ks. has_row d' k"
    by simp_all
qed


section \<open>The claims about the reconciler\<close>

lemma processIngredient_succeeds:
  assumes "faults e (length (calls d)) = None" and "faults e (Suc (length (calls d))) = None"
  shows "\<exists>d' c'. processIngredient e d c k = (d', c', None)"
  using assms by (simp add: processIngredient_unfold)

text \<open>
  Claim C2. Each ingredient goes through \<open>processIngredient\<close>, in the order of the
  sequence (\<open>processNext\<close> is \<open>process_each\<close> over the list). When a row of that key
  exists, whatever its \<open>has_item\<close>, a step that succeeds counts the ingredient as
  processed and leaves the table as it was; when none exists, it appends one row of
  that key with \<open>has_item = false\<close> and counts the ingredient as processed and as
  added. A step succeeds whenever the storage layer does not fail. Reconciling
  \<open>["arroz", "feijao"]\<close> (the second key spelt with U+00E3) against a pantry that has
  \<open>arroz\<close> and not the other gives
  processedCount 2 and addedToShoppingList 1, and the pantry afterwards is the one
  before, unchanged, followed by one row for the missing key, with \<open>has_item = false\<close>.
\<close>

theorem processIngredient_reconciles:
  "processNext e ings d c 0 = finish ings (process_each e d c ings)
   \<and> (faults e (length (calls d)) = None \<and> faults e (Suc (length (calls d))) = None \<longrightarrow>
        (\<exists>d' c'. processIngredient e d c k = (d', c', None)))
   \<and> (processIngredient e d c k = (d', c', None) \<and> has_row d k \<longrightarrow>
        pantry d' = pantry d \<and> seq d' = seq d
        \<and> processedCount c' = processedCount c + 1
        \<and> addedToShoppingList c' = addedToShoppingList c)
   \<and> (processIngredient e d c k = (d', c', None) \<and> \<not> has_row d k \<longrightarrow>
        (\<exists>row. pantry d' = pantry d @ [row] \<and> ingredient row = k \<and> has_item row = Some False)
        \<and> processedCount c' = processedCount c + 1
        \<and> addedToShoppingList c' = addedToShoppingList c + 1)
   \<and> (has_row d ''arroz'' \<and> \<not> has_row d feijao
        \<and> processNext e [''arroz'', feijao] d zero 0 = (d2, c2, Reply 200 body) \<longrightarrow>
        processedCount c2 = 2 \<and> addedToShoppingList c2 = 1
        \<and> (\<exists>row. pantry d2 = pantry d @ [row] \<and> ingredient row = feijao
               \<and> has_item row = Some False))"
proof (intro conjI impI)
  show "processNext e ings d c 0 = finish ings (process_each e d c ings)"
    by (rule processNext_process_each)
next
  assume "faults e (length (calls d)) = None \<and> faults e (Suc (length (calls d))) = None"
  then show "\<exists>d' c'. processIngredient e d c k = (d', c', None)"
    by (simp add: processIngredient_succeeds)
next
  assume a: "processIngredient e d c k = (d', c', None) \<and> has_row d k"
  with processIngredient_found [of e d c k d' c']
  have "d' = d\<lparr>calls := calls d @ [SelectPantry k]\<rparr>"
    and "c' = c\<lparr>processedCount := processedCount c + 1\<rparr>" by simp_all
  then show "pantry d' = pantry d" and "seq d' = seq d"
    and "processedCount c' = processedCount c + 1"
    and "addedToShoppingList c' = addedToShoppingList c" by simp_all
next
  assume a: "processIngredient e d c k = (d', c', None) \<and> \<not> has_row d k"
  with processIngredient_inserted [of e d c k d' c']
  have d': "d' = d\<lparr>calls := calls d @ [SelectPantry k, InsertPantry k],
                pantry := pantry d @
                  [\<lparr>row_id = next_rowid d, ingredient = k, has_item = Some False,
                    created_at = timestamps e (Suc (length (calls d)))\<rparr>],
                seq := next_rowid d\<rparr>"
    and c': "c' = c\<lparr>processedCount := processedCount c + 1,
                addedToShoppingList := addedToShoppingList c + 1\<rparr>" by simp_all
  from d' show "\<exists>row. pantry d' = pantry d @ [row] \<and> ingredient row = k \<and> has_item row = Some False"
    by simp
  from c' show "processedCount c' = processedCount c + 1"
    and "addedToShoppingList c' = addedToShoppingList c + 1" by simp_all
next
  assume a: "has_row d ''arroz'' \<and> \<not> has_row d feijao
        \<and> processNext e [''arroz'', feijao] d zero 0 = (d2, c2, Reply 200 body)"
  then have run: "process_each e d zero [''arroz'', feijao] = (d2, c2, None)"
    by (simp add: processNext_success)
  obtain d1 c1 r1 where s1: "processIngredient e d zero ''arroz'' = (d1, c1, r1)"
    by (cases "processIngredient e d zero ''arroz''") auto
  with run have r1: "r1 = None" and s2: "processIngredient e d1 c1 feijao = (d2, c2, None)"
    by (auto split: option.splits prod.splits)
  from s1 r1 a processIngredient_found [of e d zero "''arroz''" d1 c1]
  have d1: "pantry d1 = pantry d" and c1: "c1 = zero\<lparr>processedCount := processedCount zero + 1\<rparr>"
    by simp_all
  from d1 a have "\<not> has_row d1 feijao" by (simp add: has_row_def)
  with s2 processIngredient_inserted [of e d1 c1 feijao d2 c2]
  have d2: "d2 = d1\<lparr>calls := calls d1 @ [SelectPantry feijao, InsertPantry feijao],
                pantry := pantry d1 @
                  [\<lparr>row_id = next_rowid d1, ingredient = feijao, has_item = Some False,
                    created_at = timestamps e (Suc (length (calls d1)))\<rparr>],
                seq := next_rowid d1\<rparr>"
    and c2: "c2 = c1\<lparr>processedCount := processedCount c1 + 1,
                addedToShoppingList := addedToShoppingList c1 + 1\<rparr>" by simp_all
  from c1 c2 show "processedCount c2 = 2" and "addedToShoppingList c2 = 1"
    by (simp_all add: zero_def)
  from d1 d2 show "\<exists>row. pantry d2 = pantry d @ [row] \<and> ingredient row = feijao
               \<and> has_item row = Some False" by simp
qed

theorem processIngredient_reconciles_witness:
  "has_row arroz_db ''arroz'' \<and> \<not> has_row arroz_db feijao
   \<and> faults reliable (length (calls arroz_db)) = None
   \<and> faults reliable (Suc (length (calls arroz_db))) = None
   \<and> processIngredient reliable arroz_db zero ''arroz'' =
       (arroz_db\<lparr>calls := [SelectPantry ''arroz'']\<rparr>,
        \<lparr>processedCount = 1, addedToShoppingList = 0\<rparr>, None)
   \<and> pantry (arroz_db\<lparr>calls := [SelectPantry ''arroz'']\<rparr>) = pantry arroz_db
   \<and> processIngredient reliable arroz_db zero feijao =
       (\<lparr>pantry = [\<lparr>row_id = 1, ingredient = ''arroz'', has_item = Some True, created_at = 0\<rparr>,
                   \<lparr>row_id = 2, ingredient = feijao, has_item = Some False, created_at = 1001\<rparr>],
         seq = 2, calls = [SelectPantry feijao, InsertPantry feijao]\<rparr>,
        \<lparr>processedCount = 1, addedToShoppingList = 1\<rparr>, None)
   \<and> addedToShoppingList \<lparr>processedCount = 1, addedToShoppingList = 1\<rparr>
       = addedToShoppingList zero + 1
   \<and> processNext reliable [''arroz'', feijao] arroz_db zero 0 =
       (\<lparr>pantry = [\<lparr>row_id = 1, ingredient = ''arroz'', has_item = Some True, created_at = 0\<rparr>,
                   \<lparr>row_id = 2, ingredient = feijao, has_item = Some False, created_at = 1002\<rparr>],
         seq = 2, calls = [SelectPantry ''arroz'', SelectPantry feijao, InsertPantry feijao]\<rparr>,
        \<lparr>processedCount = 2, addedToShoppingList = 1\<rparr>,
        Reply 200 (JObj [(''message'', JStr ''Processados 2 ingredientes''),
                         (''addedToShoppingList'', JNum 1),
                         (''ingredients'', JArr [JStr ''arroz'', JStr feijao])]))
   \<and> processedCount \<lparr>processedCount = 2, addedToShoppingList = 1\<rparr> = 2
   \<and> addedToShoppingList \<lparr>processedCount = 2, addedToShoppingList = 1\<rparr> = 1"
proof -
  let ?d1 = "arroz_db\<lparr>calls := [SelectPantry ''arroz'']\<rparr>"
  let ?c1 = "\<lparr>processedCount = 1, addedToShoppingList = 0\<rparr>"
  let ?di = "\<lparr>pantry = [\<lparr>row_id = 1, ingredient = ''arroz'', has_item = Some True, created_at = 0\<rparr>,
                   \<lparr>row_id = 2, ingredient = feijao, has_item = Some False, created_at = 1001\<rparr>],
         seq = 2, calls = [SelectPantry feijao, InsertPantry feijao]\<rparr>"
  let ?ci = "\<lparr>processedCount = 1, addedToShoppingList = 1\<rparr>"
  let ?d2 = "\<lparr>pantry = [\<lparr>row_id = 1, ingredient = ''arroz'', has_item = Some True, created_at = 0\<rparr>,
                   \<lparr>row_id = 2, ingredient = feijao, has_item = Some False, created_at = 1002\<rparr>],
         seq = 2, calls = [SelectPantry ''arroz'', SelectPantry feijao, InsertPantry feijao]\<rparr>"
  let ?c2 = "\<lparr>processedCount = 2, addedToShoppingList = 1\<rparr>"
  let ?body = "JObj [(''message'', JStr ''Processados 2 ingredientes''),
                         (''addedToShoppingList'', JNum 1),
                         (''ingredients'', JArr [JStr ''arroz'', JStr feijao])]"
  have h1: "has_row arroz_db ''arroz''" by code_simp
  have h2: "\<not> has_row arroz_db feijao" by code_simp
  have f0: "faults reliable (length (calls arroz_db)) = None" by code_simp
  have f1: "faults reliable (Suc (length (calls arroz_db))) = None" by code_simp
  have s1: "processIngredient reliable arroz_db zero ''arroz'' = (?d1, ?c1, None)"
    by code_simp
  have s2: "processIngredient reliable arroz_db zero feijao = (?di, ?ci, None)"
    by code_simp
  have run: "processNext reliable [''arroz'', feijao] arroz_db zero 0 = (?d2, ?c2, Reply 200 ?body)"
    by code_simp
  from processIngredient_reconciles [of reliable "[]" arroz_db zero "''arroz''" ?d1 ?c1 ?d2 ?c2 ?body]
    h1 h2 s1 run
  have found: "pantry ?d1 = pantry arroz_db \<and> processedCount ?c2 = 2 \<and> addedToShoppingList ?c2 = 1"
    by blast
  from processIngredient_reconciles [of reliable "[]" arroz_db zero feijao ?di ?ci] h2 s2
  have inserted: "addedToShoppingList ?ci = addedToShoppingList zero + 1"
    by blast
  from h1 h2 f0 f1 s1 s2 run found inserted show ?thesis by blast
qed

lemma filter_key_distinct:
  "distinct (map f xs) \<Longrightarrow> k \<in> set (map f xs) \<Longrightarrow> length (filter (\<lambda>x. f x = k) xs) = 1"
proof (induction xs)
  case Nil
  then show ?case by simp
next
  case (Cons x xs)
  show ?case
  proof (cases "f x = k")
    case True
    with Cons.prems have "k \<notin> set (map f xs)" by auto
    then have "filter (\<lambda>x. f x = k) xs = []" by (auto simp: filter_empty_conv)
    with True show ?thesis by simp
  next
    case False
    with Cons show ?thesis by auto
  qed
qed

lemma process_each_new_keys:
  assumes "process_each e d c ks = (d', c', None)"
  shows "\<exists>news. pantry d' = pantry d @ news
           \<and> list_all (\<lambda>row. has_item row = Some False) news
           \<and> set (map ingredient news) = set ks - set (map ingredient (pantry d))
           \<and> distinct (map ingredient news)
           \<and> addedToShoppingList c' = addedToShoppingList c + length news"
proof -
  from process_each_rows [OF assms] obtain news where news:
    "pantry d' = pantry d @ news" "list_all (\<lambda>row. has_item row = Some False) news"
    "set (map ingredient news) \<subseteq> set ks - set (map ingredient (pantry d))"
    "distinct (map ingredient news)"
    "addedToShoppingList c' = addedToShoppingList c + length news"
    by blast
  from process_each_success(2) [OF assms] have "set ks \<subseteq> set (map ingredient (pantry d'))"
    by (auto simp: has_row_def)
  with news(1) have "set ks - set (map ingredient (pantry d)) \<subseteq> set (map ingredient news)"
    by auto
  with news(3) have "set (map ingredient news) = set ks - set (map ingredient (pantry d))"
    by blast
  with news show ?thesis by blast
qed

lemma process_each_added:
  assumes "process_each e d c ks = (d', c', None)"
  shows "addedToShoppingList c' =
           addedToShoppingList c + card (set ks - set (map ingredient (pantry d)))"
    and "length (pantry d') = length (pantry d) + (addedToShoppingList c' - addedToShoppingList c)"
proof -
  from process_each_new_keys [OF assms] obtain news where news:
    "pantry d' = pantry d @ news"
    "set (map ingredient news) = set ks - set (map ingredient (pantry d))"
    "distinct (map ingredient news)"
    "addedToShoppingList c' = addedToShoppingList c + length news"
    by blast
  from news(3) have "card (set (map ingredient news)) = length news"
    by (metis distinct_card length_map)
  with news(2,4) show "addedToShoppingList c' =
           addedToShoppingList c + card (set ks - set (map ingredient (pantry d)))" by simp
  from news(1,4) show "length (pantry d') = length (pantry d) + (addedToShoppingList c' - addedToShoppingList c)"
    by simp
qed

lemma process_each_one_row:
  assumes "process_each e d c ks = (d', c', None)" and "k \<in> set ks" and "\<not> has_row d k"
  shows "length (rows_of d' k) = 1"
proof -
  from process_each_new_keys [OF assms(1)] obtain news where news:
    "pantry d' = pantry d @ news"
    "set (map ingredient news) = set ks - set (map ingredient (pantry d))"
    "distinct (map ingredient news)"
    by blast
  from assms(3) have none: "filter (\<lambda>r. ingredient r = k) (pantry d) = []"
    by (auto simp: has_row_def filter_empty_conv)
  from assms(2,3) news(2) have "k \<in> set (map ingredient news)" by (simp add: has_row_def)
  with news(3) have "length (filter (\<lambda>r. ingredient r = k) news) = 1"
    by (rule filter_key_distinct)
  with news(1) none show ?thesis by (simp add: rows_of_def)
qed

lemma process_each_no_faults:
  assumes "\<forall>n. faults e n = None"
  shows "\<exists>d' c'. process_each e d c ks = (d', c', None)"
proof (induction ks arbitrary: d c)
  case Nil
  show ?case by simp
next
  case (Cons k ks)
  from assms obtain d1 c1 where "processIngredient e d c k = (d1, c1, None)"
    using processIngredient_succeeds [of e d c k] by auto
  with Cons [of d1 c1] show ?case by simp
qed

lemma count_list_two_member: "2 \<le> count_list xs k \<Longrightarrow> k \<in> set xs"
  by (metis count_list_0_iff not_numeral_le_zero)

text \<open>
  Claim C1. When a key that the pantry does not hold occurs twice in the sequence, a
  reconciliation that reaches its summary leaves exactly one row of that key: every
  occurrence is counted as processed, and the key is counted once as added (the
  number added is the number of distinct keys of the sequence that the pantry did not
  hold). Step by step: on a pantry without the key, a successful step creates its one
  row and counts it as processed and added; on a pantry with the key, a successful step
  finds it, leaves its rows alone and counts it as processed only. Reconciling
  \<open>["ovos", "ovos"]\<close> against an empty pantry gives processedCount 2,
  addedToShoppingList 1 and one row, for \<open>ovos\<close>. A reconciliation reaches its summary
  whenever no statement fails in the storage layer.
\<close>

theorem duplicate_inserted_once:
  "(2 \<le> count_list ings k \<and> \<not> has_row d k
      \<and> processNext e ings d c 0 = (d', c', Reply 200 body) \<longrightarrow>
        length (rows_of d' k) = 1
        \<and> processedCount c' = processedCount c + length ings
        \<and> addedToShoppingList c' =
            addedToShoppingList c + card (set ings - set (map ingredient (pantry d))))
   \<and> (\<not> has_row d k \<and> processIngredient e d c k = (d1, c1, None) \<longrightarrow>
        length (rows_of d1 k) = 1 \<and> has_row d1 k
        \<and> processedCount c1 = processedCount c + 1
        \<and> addedToShoppingList c1 = addedToShoppingList c + 1)
   \<and> (has_row d k \<and> processIngredient e d c k = (d1, c1, None) \<longrightarrow>
        rows_of d1 k = rows_of d k
        \<and> processedCount c1 = processedCount c + 1
        \<and> addedToShoppingList c1 = addedToShoppingList c)
   \<and> (pantry d = [] \<and> processNext e [''ovos'', ''ovos''] d zero 0 = (d', c', Reply 200 body) \<longrightarrow>
        processedCount c' = 2 \<and> addedToShoppingList c' = 1
        \<and> length (rows_of d' ''ovos'') = 1 \<and> length (pantry d') = 1)
   \<and> ((\<forall>n. faults e n = None) \<longrightarrow>
        (\<exists>d2 c2. processNext e ings d c 0 = (d2, c2, Reply 200 (summary c2 ings))))"
proof (intro conjI impI)
  assume a: "2 \<le> count_list ings k \<and> \<not> has_row d k
      \<and> processNext e ings d c 0 = (d', c', Reply 200 body)"
  then have run: "process_each e d c ings = (d', c', None)"
    by (simp add: processNext_success)
  from a have k: "k \<in> set ings" by (simp add: count_list_two_member)
  from run k a show "length (rows_of d' k) = 1" by (simp add: process_each_one_row)
  from run show "processedCount c' = processedCount c + length ings"
    by (rule process_each_success(1))
  from run show "addedToShoppingList c' =
            addedToShoppingList c + card (set ings - set (map ingredient (pantry d)))"
    by (rule process_each_added(1))
next
  assume a: "\<not> has_row d k \<and> processIngredient e d c k = (d1, c1, None)"
  with processIngredient_inserted [of e d c k d1 c1]
  have d1: "d1 = d\<lparr>calls := calls d @ [SelectPantry k, InsertPantry k],
                pantry := pantry d @
                  [\<lparr>row_id = next_rowid d, ingredient = k, has_item = Some False,
                    created_at = timestamps e (Suc (length (calls d)))\<rparr>],
                seq := next_rowid d\<rparr>"
    and c1: "c1 = c\<lparr>processedCount := processedCount c + 1,
                addedToShoppingList := addedToShoppingList c + 1\<rparr>" by simp_all
  from a have none: "filter (\<lambda>r. ingredient r = k) (pantry d) = []"
    by (auto simp: has_row_def filter_empty_conv)
  from d1 none show "length (rows_of d1 k) = 1" by (simp add: rows_of_def)
  from d1 show "has_row d1 k" by (simp add: has_row_def)
  from c1 show "processedCount c1 = processedCount c + 1"
    and "addedToShoppingList c1 = addedToShoppingList c + 1" by simp_all
next
  assume a: "has_row d k \<and> processIngredient e d c k = (d1, c1, None)"
  with processIngredient_found [of e d c k d1 c1]
  have "d1 = d\<lparr>calls := calls d @ [SelectPantry k]\<rparr>"
    and "c1 = c\<lparr>processedCount := processedCount c + 1\<rparr>" by simp_all
  then show "rows_of d1 k = rows_of d k" and "processedCount c1 = processedCount c + 1"
    and "addedToShoppingList c1 = addedToShoppingList c" by (simp_all add: rows_of_def)
next
  assume a: "pantry d = [] \<and> processNext e [''ovos'', ''ovos''] d zero 0 = (d', c', Reply 200 body)"
  then have run: "process_each e d zero [''ovos'', ''ovos''] = (d', c', None)"
    by (simp add: processNext_success)
  from a have no: "\<not> has_row d ''ovos''" by (simp add: has_row_def)
  from process_each_success(1) [OF run] show "processedCount c' = 2" by (simp add: zero_def)
  from process_each_added(1) [OF run] a show added: "addedToShoppingList c' = 1"
    by (simp add: zero_def)
  from process_each_one_row [OF run _ no] show "length (rows_of d' ''ovos'') = 1" by simp
  from process_each_added(2) [OF run] a added show "length (pantry d') = 1"
    by (simp add: zero_def)
next
  assume "\<forall>n. faults e n = None"
  from process_each_no_faults [OF this, of d c ings]
  show "\<exists>d2 c2. processNext e ings d c 0 = (d2, c2, Reply 200 (summary c2 ings))"
    by (simp add: processNext_success)
qed

theorem duplicate_inserted_once_witness:
  "2 \<le> count_list [''ovos'', ''ovos''] ''ovos'' \<and> \<not> has_row empty_db ''ovos''
   \<and> pantry empty_db = []
   \<and> processNext reliable [''ovos'', ''ovos''] empty_db zero 0 =
       (\<lparr>pantry = [\<lparr>row_id = 1, ingredient = ''ovos'', has_item = Some False, created_at = 1001\<rparr>],
         seq = 1, calls = [SelectPantry ''ovos'', InsertPantry ''ovos'', SelectPantry ''ovos'']\<rparr>,
        \<lparr>processedCount = 2, addedToShoppingList = 1\<rparr>,
        Reply 200 (JObj [(''message'', JStr ''Processados 2 ingredientes''),
                         (''addedToShoppingList'', JNum 1),
                         (''ingredients'', JArr [JStr ''ovos'', JStr ''ovos''])]))
   \<and> processIngredient reliable empty_db zero ''ovos'' =
       (\<lparr>pantry = [\<lparr>row_id = 1, ingredient = ''ovos'', has_item = Some False, created_at = 1001\<rparr>],
         seq = 1, calls = [SelectPantry ''ovos'', InsertPantry ''ovos'']\<rparr>,
        \<lparr>processedCount = 1, addedToShoppingList = 1\<rparr>, None)
   \<and> has_row
        \<lparr>pantry = [\<lparr>row_id = 1, ingredient = ''ovos'', has_item = Some False, created_at = 1001\<rparr>],
         seq = 1, calls = [SelectPantry ''ovos'', InsertPantry ''ovos'']\<rparr> ''ovos''
   \<and> processIngredient reliable
        \<lparr>pantry = [\<lparr>row_id = 1, ingredient = ''ovos'', has_item = Some False, created_at = 1001\<rparr>],
         seq = 1, calls = [SelectPantry ''ovos'', InsertPantry ''ovos'']\<rparr>
        \<lparr>processedCount = 1, addedToShoppingList = 1\<rparr> ''ovos'' =
       (\<lparr>pantry = [\<lparr>row_id = 1, ingredient = ''ovos'', has_item = Some False, created_at = 1001\<rparr>],
         seq = 1, calls = [SelectPantry ''ovos'', InsertPantry ''ovos'', SelectPantry ''ovos'']\<rparr>,
        \<lparr>processedCount = 2, addedToShoppingList = 1\<rparr>, None)
   \<and> addedToShoppingList \<lparr>processedCount = 2, addedToShoppingList = 1\<rparr>
       = addedToShoppingList \<lparr>processedCount = 1, addedToShoppingList = 1\<rparr>
   \<and> length (rows_of
        \<lparr>pantry = [\<lparr>row_id = 1, ingredient = ''ovos'', has_item = Some False, created_at = 1001\<rparr>],
         seq = 1, calls = [SelectPantry ''ovos'', InsertPantry ''ovos'', SelectPantry ''ovos'']\<rparr>
        ''ovos'') = 1
   \<and> processedCount \<lparr>processedCount = 2, addedToShoppingList = 1\<rparr> = 2
   \<and> addedToShoppingList \<lparr>processedCount = 2, addedToShoppingList = 1\<rparr> = 1"
proof -
  let ?d1 = "\<lparr>pantry = [\<lparr>row_id = 1, ingredient = ''ovos'', has_item = Some False, created_at = 1001\<rparr>],
         seq = 1, calls = [SelectPantry ''ovos'', InsertPantry ''ovos'']\<rparr>"
  let ?c1 = "\<lparr>processedCount = 1, addedToShoppingList = 1\<rparr>"
  let ?d2 = "\<lparr>pantry = [\<lparr>row_id = 1, ingredient = ''ovos'', has_item = Some False, created_at = 1001\<rparr>],
         seq = 1, calls = [SelectPantry ''ovos'', InsertPantry ''ovos'', SelectPantry ''ovos'']\<rparr>"
  let ?c2 = "\<lparr>processedCount = 2, addedToShoppingList = 1\<rparr>"
  let ?body = "JObj [(''message'', JStr ''Processados 2 ingredientes''),
                         (''addedToShoppingList'', JNum 1),
                         (''ingredients'', JArr [JStr ''ovos'', JStr ''ovos''])]"
  have h1: "2 \<le> count_list [''ovos'', ''ovos''] ''ovos''" by simp
  have h2: "\<not> has_row empty_db ''ovos''" by code_simp
  have h3: "pantry empty_db = []" by code_simp
  have run: "processNext reliable [''ovos'', ''ovos''] empty_db zero 0 = (?d2, ?c2, Reply 200 ?body)"
    by code_simp
  have s1: "processIngredient reliable empty_db zero ''ovos'' = (?d1, ?c1, None)" by code_simp
  have s2: "processIngredient reliable ?d1 ?c1 ''ovos'' = (?d2, ?c2, None)" by code_simp
  from duplicate_inserted_once [of "[''ovos'', ''ovos'']" "''ovos''" empty_db reliable zero
      ?d2 ?c2 ?body ?d1 ?c1] h1 h2 h3 run s1
  have a: "length (rows_of ?d2 ''ovos'') = 1 \<and> processedCount ?c2 = 2
      \<and> addedToShoppingList ?c2 = 1 \<and> has_row ?d1 ''ovos''"
    by blast
  with duplicate_inserted_once [of "[''ovos'', ''ovos'']" "''ovos''" ?d1 reliable ?c1
      ?d2 ?c2 ?body ?d2 ?c2] s2
  have b: "addedToShoppingList ?c2 = addedToShoppingList ?c1" by blast
  from h1 h2 h3 run s1 s2 a b show ?thesis by blast
qed

section \<open>The summary\<close>

lemma process_ingredients_string:
  assumes "field body ''ingredients'' = JStr s" and "s \<noteq> []"
  shows "process_ingredients e d body =
           (case processNext e (ingredientList s) d zero 0 of (d', c', r) \<Rightarrow> (d', r))"
  using assms by (simp add: process_ingredients_def zero_def)

lemma process_ingredients_200:
  assumes "process_ingredients e d body = (d', Reply 200 b)"
  shows "\<exists>s c'. field body ''ingredients'' = JStr s \<and> s \<noteq> []
           \<and> process_each e d zero (ingredientList s) = (d', c', None)
           \<and> b = summary c' (ingredientList s)"
proof (cases "truthy (field body ''ingredients'')")
  case False
  with assms show ?thesis by (simp add: process_ingredients_def)
next
  case True
  show ?thesis
  proof (cases "field body ''ingredients''")
    case (JStr s)
    with True have ne: "s \<noteq> []" by simp
    obtain d1 c1 r1 where run: "processNext e (ingredientList s) d zero 0 = (d1, c1, r1)"
      by (cases "processNext e (ingredientList s) d zero 0") auto
    with assms JStr ne have "d1 = d'" "r1 = Reply 200 b"
      by (simp_all add: process_ingredients_string)
    with run have "process_each e d zero (ingredientList s) = (d', c1, None)"
      and "b = summary c1 (ingredientList s)"
      by (simp_all add: processNext_success)
    with JStr ne show ?thesis by blast
  qed (use assms True in \<open>simp_all add: process_ingredients_def\<close>)
qed

text \<open>
  Claim C3, as the code has it. The summary of a successful reconciliation is the
  object \<open>{ message, addedToShoppingList, ingredients }\<close>: \<open>message\<close> is the text
  \<open>Processados n ingredientes\<close> with \<open>n\<close> the number of ingredients processed, which is
  the length of the normalized sequence; \<open>addedToShoppingList\<close> is the number of pantry
  rows the call inserted; \<open>ingredients\<close> is the normalized input sequence. There is no
  property \<open>processedCount\<close>.
\<close>

theorem summary_fields:
  "process_ingredients e d body = (d', Reply 200 b) \<longrightarrow>
     (\<exists>s. field body ''ingredients'' = JStr s
        \<and> b = JObj [(''message'', JStr (''Processados '' @ decimal (length (ingredientList s))
                                          @ '' ingredientes'')),
                    (''addedToShoppingList'', JNum (int (length (pantry d') - length (pantry d)))),
                    (''ingredients'', JArr (map JStr (ingredientList s)))])
     \<and> reply_field (Reply 200 b) ''processedCount'' = JUndefined"
proof
  assume a: "process_ingredients e d body = (d', Reply 200 b)"
  from process_ingredients_200 [OF a] obtain s c' where s: "field body ''ingredients'' = JStr s"
    and run: "process_each e d zero (ingredientList s) = (d', c', None)"
    and b: "b = summary c' (ingredientList s)" by blast
  from process_each_success(1) [OF run]
  have n: "processedCount c' = length (ingredientList s)" by (simp add: zero_def)
  from process_each_added(2) [OF run]
  have m: "addedToShoppingList c' = length (pantry d') - length (pantry d)"
    by (simp add: zero_def)
  from b n m have shape: "b = JObj [(''message'', JStr (''Processados '' @ decimal (length (ingredientList s))
                                          @ '' ingredientes'')),
                    (''addedToShoppingList'', JNum (int (length (pantry d') - length (pantry d)))),
                    (''ingredients'', JArr (map JStr (ingredientList s)))]"
    by (simp add: summary_def)
  then have "reply_field (Reply 200 b) ''processedCount'' = JUndefined"
    by (simp add: field_def)
  with s shape show "(\<exists>s. field body ''ingredients'' = JStr s
        \<and> b = JObj [(''message'', JStr (''Processados '' @ decimal (length (ingredientList s))
                                          @ '' ingredientes'')),
                    (''addedToShoppingList'', JNum (int (length (pantry d') - length (pantry d)))),
                    (''ingredients'', JArr (map JStr (ingredientList s)))])
     \<and> reply_field (Reply 200 b) ''processedCount'' = JUndefined" by blast
qed

theorem summary_fields_witness:
  "process_ingredients reliable empty_db [(''ingredients'', JStr ''ovos, Ovos'')] =
     (\<lparr>pantry = [\<lparr>row_id = 1, ingredient = ''ovos'', has_item = Some False, created_at = 1001\<rparr>],
       seq = 1, calls = [SelectPantry ''ovos'', InsertPantry ''ovos'', SelectPantry ''ovos'']\<rparr>,
      Reply 200 (JObj [(''message'', JStr ''Processados 2 ingredientes''),
                       (''addedToShoppingList'', JNum 1),
                       (''ingredients'', JArr [JStr ''ovos'', JStr ''ovos''])]))
   \<and> reply_field (Reply 200 (JObj [(''message'', JStr ''Processados 2 ingredientes''),
                       (''addedToShoppingList'', JNum 1),
                       (''ingredients'', JArr [JStr ''ovos'', JStr ''ovos''])])) ''processedCount''
       = JUndefined"
proof -
  let ?d = "\<lparr>pantry = [\<lparr>row_id = 1, ingredient = ''ovos'', has_item = Some False, created_at = 1001\<rparr>],
       seq = 1, calls = [SelectPantry ''ovos'', InsertPantry ''ovos'', SelectPantry ''ovos'']\<rparr>"
  let ?b = "JObj [(''message'', JStr ''Processados 2 ingredientes''),
                       (''addedToShoppingList'', JNum 1),
                       (''ingredients'', JArr [JStr ''ovos'', JStr ''ovos''])]"
  have run: "process_ingredients reliable empty_db [(''ingredients'', JStr ''ovos, Ovos'')] =
      (?d, Reply 200 ?b)" by code_simp
  from summary_fields [of reliable empty_db "[(''ingredients'', JStr ''ovos, Ovos'')]" ?d ?b] run
  have "reply_field (Reply 200 ?b) ''processedCount'' = JUndefined" by blast
  with run show ?thesis by blast
qed

theorem summary_processedCount_counterexample:
  "reply_field (snd (process_ingredients reliable empty_db [(''ingredients'', JStr ''ovos, Ovos'')]))
     ''processedCount'' \<noteq> JNum 2
   \<and> reply_field (snd (process_ingredients reliable empty_db [(''ingredients'', JStr ''ovos, Ovos'')]))
     ''message'' = JStr ''Processados 2 ingredientes''"
  by code_simp

section \<open>Failures of the storage layer\<close>

lemma processIngredient_calls:
  assumes "processIngredient e d c k = (d', c', r)"
  shows "\<exists>stmts. calls d' = calls d @ stmts \<and> set (map statement_key stmts) \<subseteq> {k}"
  using assms by (auto simp: processIngredient_unfold split: option.splits if_splits)

lemma process_each_calls:
  assumes "process_each e d c ks = (d', c', r)"
  shows "\<exists>stmts. calls d' = calls d @ stmts \<and> set (map statement_key stmts) \<subseteq> set ks"
  using assms
proof (induction ks arbitrary: d c)
  case Nil
  then show ?case by simp
next
  case (Cons k ks)
  obtain d1 c1 r1 where step: "processIngredient e d c k = (d1, c1, r1)"
    by (cases "processIngredient e d c k") auto
  from processIngredient_calls [OF step] obtain s1 where
    s1: "calls d1 = calls d @ s1" "set (map statement_key s1) \<subseteq> {k}" by blast
  show ?case
  proof (cases r1)
    case (Some err)
    with step Cons.prems have "d' = d1" by auto
    with s1 show ?thesis by (intro exI [of _ s1]) auto
  next
    case None
    with step Cons.prems have rest: "process_each e d1 c1 ks = (d', c', r)" by simp
    from Cons.IH [OF rest] obtain s2 where
      s2: "calls d' = calls d1 @ s2" "set (map statement_key s2) \<subseteq> set ks" by blast
    with s1 show ?thesis by (intro exI [of _ "s1 @ s2"]) auto
  qed
qed


lemma failed_step_aborts:
  "k < length ings
   \<and> processNext e (take k ings) d c 0 = (d1, c1, Reply 200 b1)
   \<and> processIngredient e d1 c1 (ings ! k) = (d2, c2, Some err) \<longrightarrow>
     processNext e ings d c 0 = (d2, c2, Reply 500 (error_body err))
     \<and> pantry d2 = pantry d1 \<and> c2 = c1
     \<and> (calls d2 = calls d1 @ [SelectPantry (ings ! k)]
          \<or> calls d2 = calls d1 @ [SelectPantry (ings ! k), InsertPantry (ings ! k)])
     \<and> (\<exists>stmts. calls d2 = calls d @ stmts
          \<and> set (map statement_key stmts) \<subseteq> set (take (Suc k) ings))
     \<and> (\<exists>news. pantry d2 = pantry d @ news
          \<and> length news = addedToShoppingList c2 - addedToShoppingList c
          \<and> set (map ingredient news) \<subseteq> set (take k ings))"
proof
  assume a: "k < length ings
   \<and> processNext e (take k ings) d c 0 = (d1, c1, Reply 200 b1)
   \<and> processIngredient e d1 c1 (ings ! k) = (d2, c2, Some err)"
  then have pre: "process_each e d c (take k ings) = (d1, c1, None)"
    by (simp add: processNext_success)
  from a have step: "processIngredient e d1 c1 (ings ! k) = (d2, c2, Some err)" by simp
  from a have "ings = take k ings @ ings ! k # drop (Suc k) ings"
    by (simp add: id_take_nth_drop)
  then have "process_each e d c ings =
      process_each e d c (take k ings @ ings ! k # drop (Suc k) ings)" by simp
  also have "\<dots> = (d2, c2, Some err)"
    using pre step by (simp add: process_each_append)
  finally have whole: "process_each e d c ings = (d2, c2, Some err)" .
  then have r: "processNext e ings d c 0 = (d2, c2, Reply 500 (error_body err))"
    by (simp add: processNext_failure)
  from processIngredient_failed [OF step]
  have f: "pantry d2 = pantry d1" "c2 = c1"
    "calls d2 = calls d1 @ [SelectPantry (ings ! k)]
       \<or> calls d2 = calls d1 @ [SelectPantry (ings ! k), InsertPantry (ings ! k)]"
    by simp_all
  from process_each_new_keys [OF pre] obtain news where news:
    "pantry d1 = pantry d @ news"
    "set (map ingredient news) = set (take k ings) - set (map ingredient (pantry d))"
    "addedToShoppingList c1 = addedToShoppingList c + length news" by blast
  with f have "pantry d2 = pantry d @ news
          \<and> length news = addedToShoppingList c2 - addedToShoppingList c
          \<and> set (map ingredient news) \<subseteq> set (take k ings)" by auto
  then have rows: "\<exists>news. pantry d2 = pantry d @ news
          \<and> length news = addedToShoppingList c2 - addedToShoppingList c
          \<and> set (map ingredient news) \<subseteq> set (take k ings)" by blast
  from a have "take (Suc k) ings = take k ings @ [ings ! k]"
    by (simp add: take_Suc_conv_app_nth)
  with pre step have "process_each e d c (take (Suc k) ings) = (d2, c2, Some err)"
    by (simp add: process_each_append)
  from process_each_calls [OF this]
  have "\<exists>stmts. calls d2 = calls d @ stmts
          \<and> set (map statement_key stmts) \<subseteq> set (take (Suc k) ings)" .
  with rows r f show "processNext e ings d c 0 = (d2, c2, Reply 500 (error_body err))
     \<and> pantry d2 = pantry d1 \<and> c2 = c1
     \<and> (calls d2 = calls d1 @ [SelectPantry (ings ! k)]
          \<or> calls d2 = calls d1 @ [SelectPantry (ings ! k), InsertPantry (ings ! k)])
     \<and> (\<exists>stmts. calls d2 = calls d @ stmts
          \<and> set (map statement_key stmts) \<subseteq> set (take (Suc k) ings))
     \<and> (\<exists>news. pantry d2 = pantry d @ news
          \<and> length news = addedToShoppingList c2 - addedToShoppingList c
          \<and> set (map ingredient news) \<subseteq> set (take k ings))" by blast
qed

text \<open>
  Claim C4. Let the first \<open>k\<close> ingredients be processed without failure, and let the
  storage layer fail on the next one: either its lookup fails, or the lookup succeeds and
  finds no row and the insert fails. Then the reconciliation answers with that error
  (status 500) and not with the summary; the state it leaves is the one of the failed
  step, whose statements are the last ones issued: every statement of the call is about
  one of the ingredients up to the failing one, so that no later ingredient is looked up
  or inserted; the failed step changes no row and no counter, and the rows inserted for
  the first \<open>k\<close> ingredients stay in the table after the existing ones.
\<close>

theorem storage_failure_aborts:
  "k < length ings
   \<and> processNext e (take k ings) d c 0 = (d1, c1, Reply 200 b1)
   \<and> (faults e (length (calls d1)) = Some err
        \<or> faults e (length (calls d1)) = None \<and> \<not> has_row d1 (ings ! k)
            \<and> faults e (Suc (length (calls d1))) = Some err) \<longrightarrow>
     (\<exists>d2. processNext e ings d c 0 = (d2, c1, Reply 500 (error_body err))
        \<and> processIngredient e d1 c1 (ings ! k) = (d2, c1, Some err)
        \<and> pantry d2 = pantry d1 \<and> seq d2 = seq d1
        \<and> calls d2 = calls d1 @
             (if faults e (length (calls d1)) = Some err then [SelectPantry (ings ! k)]
              else [SelectPantry (ings ! k), InsertPantry (ings ! k)])
        \<and> (\<exists>stmts. calls d2 = calls d @ stmts
             \<and> set (map statement_key stmts) \<subseteq> set (take (Suc k) ings))
        \<and> (\<exists>news. pantry d2 = pantry d @ news
             \<and> length news = addedToShoppingList c1 - addedToShoppingList c
             \<and> set (map ingredient news) \<subseteq> set (take k ings)))"
proof
  assume a: "k < length ings
   \<and> processNext e (take k ings) d c 0 = (d1, c1, Reply 200 b1)
   \<and> (faults e (length (calls d1)) = Some err
        \<or> faults e (length (calls d1)) = None \<and> \<not> has_row d1 (ings ! k)
            \<and> faults e (Suc (length (calls d1))) = Some err)"
  let ?k = "ings ! k"
  let ?stmts = "if faults e (length (calls d1)) = Some err then [SelectPantry ?k]
              else [SelectPantry ?k, InsertPantry ?k]"
  let ?d2 = "d1\<lparr>calls := calls d1 @ ?stmts\<rparr>"
  from a have step: "processIngredient e d1 c1 ?k = (?d2, c1, Some err)"
    by (auto simp: processIngredient_unfold)
  from a step failed_step_aborts [of k ings e d c d1 c1 b1 ?d2 c1 err]
  have "processNext e ings d c 0 = (?d2, c1, Reply 500 (error_body err))
     \<and> (\<exists>stmts. calls ?d2 = calls d @ stmts
          \<and> set (map statement_key stmts) \<subseteq> set (take (Suc k) ings))
     \<and> (\<exists>news. pantry ?d2 = pantry d @ news
          \<and> length news = addedToShoppingList c1 - addedToShoppingList c
          \<and> set (map ingredient news) \<subseteq> set (take k ings))"
    by blast
  with step show "\<exists>d2. processNext e ings d c 0 = (d2, c1, Reply 500 (error_body err))
        \<and> processIngredient e d1 c1 (ings ! k) = (d2, c1, Some err)
        \<and> pantry d2 = pantry d1 \<and> seq d2 = seq d1
        \<and> calls d2 = calls d1 @ ?stmts
        \<and> (\<exists>stmts. calls d2 = calls d @ stmts
             \<and> set (map statement_key stmts) \<subseteq> set (take (Suc k) ings))
        \<and> (\<exists>news. pantry d2 = pantry d @ news
             \<and> length news = addedToShoppingList c1 - addedToShoppingList c
             \<and> set (map ingredient news) \<subseteq> set (take k ings))"
    by (intro exI [of _ ?d2]) simp
qed

theorem storage_failure_aborts_witness:
  "(2::nat) < length [''a'', ''b'', ''c'', ''d'', ''e'']
   \<and> processNext (failing_at 4) (take 2 [''a'', ''b'', ''c'', ''d'', ''e'']) empty_db zero 0 =
       (\<lparr>pantry = [\<lparr>row_id = 1, ingredient = ''a'', has_item = Some False, created_at = 1001\<rparr>,
                   \<lparr>row_id = 2, ingredient = ''b'', has_item = Some False, created_at = 1003\<rparr>],
         seq = 2,
         calls = [SelectPantry ''a'', InsertPantry ''a'', SelectPantry ''b'', InsertPantry ''b'']\<rparr>,
        \<lparr>processedCount = 2, addedToShoppingList = 2\<rparr>,
        Reply 200 (JObj [(''message'', JStr ''Processados 2 ingredientes''),
                         (''addedToShoppingList'', JNum 2),
                         (''ingredients'', JArr [JStr ''a'', JStr ''b''])]))
   \<and> faults (failing_at 4) 4 = Some ''SQLITE_IOERR: disk I/O error''
   \<and> processNext (failing_at 4) [''a'', ''b'', ''c'', ''d'', ''e''] empty_db zero 0 =
       (\<lparr>pantry = [\<lparr>row_id = 1, ingredient = ''a'', has_item = Some False, created_at = 1001\<rparr>,
                   \<lparr>row_id = 2, ingredient = ''b'', has_item = Some False, created_at = 1003\<rparr>],
         seq = 2,
         calls = [SelectPantry ''a'', InsertPantry ''a'', SelectPantry ''b'', InsertPantry ''b'',
                  SelectPantry ''c'']\<rparr>,
        \<lparr>processedCount = 2, addedToShoppingList = 2\<rparr>,
        Reply 500 (error_body ''SQLITE_IOERR: disk I/O error''))
   \<and> processNext (failing_at 5) (take 2 [''a'', ''b'', ''c'', ''d'', ''e'']) empty_db zero 0 =
       (\<lparr>pantry = [\<lparr>row_id = 1, ingredient = ''a'', has_item = Some False, created_at = 1001\<rparr>,
                   \<lparr>row_id = 2, ingredient = ''b'', has_item = Some False, created_at = 1003\<rparr>],
         seq = 2,
         calls = [SelectPantry ''a'', InsertPantry ''a'', SelectPantry ''b'', InsertPantry ''b'']\<rparr>,
        \<lparr>processedCount = 2, addedToShoppingList = 2\<rparr>,
        Reply 200 (JObj [(''message'', JStr ''Processados 2 ingredientes''),
                         (''addedToShoppingList'', JNum 2),
                         (''ingredients'', JArr [JStr ''a'', JStr ''b''])]))
   \<and> faults (failing_at 5) 4 = None
   \<and> faults (failing_at 5) 5 = Some ''SQLITE_IOERR: disk I/O error''
   \<and> processNext (failing_at 5) [''a'', ''b'', ''c'', ''d'', ''e''] empty_db zero 0 =
       (\<lparr>pantry = [\<lparr>row_id = 1, ingredient = ''a'', has_item = Some False, created_at = 1001\<rparr>,
                   \<lparr>row_id = 2, ingredient = ''b'', has_item = Some False, created_at = 1003\<rparr>],
         seq = 2,
         calls = [SelectPantry ''a'', InsertPantry ''a'', SelectPantry ''b'', InsertPantry ''b'',
                  SelectPantry ''c'', InsertPantry ''c'']\<rparr>,
        \<lparr>processedCount = 2, addedToShoppingList = 2\<rparr>,
        Reply 500 (error_body ''SQLITE_IOERR: disk I/O error''))"
proof -
  let ?ings = "[''a'', ''b'', ''c'', ''d'', ''e'']"
  let ?err = "''SQLITE_IOERR: disk I/O error''"
  let ?rows = "[\<lparr>row_id = 1, ingredient = ''a'', has_item = Some False, created_at = 1001\<rparr>,
                \<lparr>row_id = 2, ingredient = ''b'', has_item = Some False, created_at = 1003\<rparr>]"
  let ?d1 = "\<lparr>pantry = ?rows, seq = 2,
         calls = [SelectPantry ''a'', InsertPantry ''a'', SelectPantry ''b'', InsertPantry ''b'']\<rparr>"
  let ?c1 = "\<lparr>processedCount = 2, addedToShoppingList = 2\<rparr>"
  let ?b1 = "JObj [(''message'', JStr ''Processados 2 ingredientes''),
                         (''addedToShoppingList'', JNum 2),
                         (''ingredients'', JArr [JStr ''a'', JStr ''b''])]"
  have h1: "(2::nat) < length ?ings" by simp
  have pre4: "processNext (failing_at 4) (take 2 ?ings) empty_db zero 0 = (?d1, ?c1, Reply 200 ?b1)"
    by code_simp
  have f4: "faults (failing_at 4) 4 = Some ?err" by code_simp
  have pre5: "processNext (failing_at 5) (take 2 ?ings) empty_db zero 0 = (?d1, ?c1, Reply 200 ?b1)"
    by code_simp
  have f54: "faults (failing_at 5) 4 = None" by code_simp
  have f55: "faults (failing_at 5) 5 = Some ?err" by code_simp
  have run4: "processNext (failing_at 4) ?ings empty_db zero 0 =
      (\<lparr>pantry = ?rows, seq = 2,
         calls = [SelectPantry ''a'', InsertPantry ''a'', SelectPantry ''b'', InsertPantry ''b'',
                  SelectPantry ''c'']\<rparr>, ?c1, Reply 500 (error_body ?err))"
    by code_simp
  have run5: "processNext (failing_at 5) ?ings empty_db zero 0 =
      (\<lparr>pantry = ?rows, seq = 2,
         calls = [SelectPantry ''a'', InsertPantry ''a'', SelectPantry ''b'', InsertPantry ''b'',
                  SelectPantry ''c'', InsertPantry ''c'']\<rparr>, ?c1, Reply 500 (error_body ?err))"
    by code_simp
  have g4: "faults (failing_at 4) (length (calls ?d1)) = Some ?err" by code_simp
  have g54: "faults (failing_at 5) (length (calls ?d1)) = None" by code_simp
  have g55: "faults (failing_at 5) (Suc (length (calls ?d1))) = Some ?err" by code_simp
  have no_c2: "\<not> has_row ?d1 (?ings ! 2)" by code_simp
  from storage_failure_aborts [of 2 ?ings "failing_at 4" empty_db zero ?d1 ?c1 ?b1 ?err]
    h1 pre4 g4
  have select_fails: "\<exists>d2. processNext (failing_at 4) ?ings empty_db zero 0 =
      (d2, ?c1, Reply 500 (error_body ?err)) \<and> pantry d2 = pantry ?d1"
    by blast
  from storage_failure_aborts [of 2 ?ings "failing_at 5" empty_db zero ?d1 ?c1 ?b1 ?err]
    h1 pre5 g54 g55 no_c2
  have insert_fails: "\<exists>d2. processNext (failing_at 5) ?ings empty_db zero 0 =
      (d2, ?c1, Reply 500 (error_body ?err)) \<and> pantry d2 = pantry ?d1"
    by blast
  from select_fails insert_fails h1 pre4 f4 run4 pre5 f54 f55 run5 show ?thesis by blast
qed

section \<open>Reconciling the same list again\<close>



section \<open>Validation of the request\<close>

text \<open>
  Claim C8. A process-ingredients request whose \<open>ingredients\<close> is absent or the empty
  string is answered at once with status 400, and the database is exactly as before:
  no row is changed and no statement is issued.
\<close>

theorem missing_ingredients_rejected:
  "(map_of body ''ingredients'' = None \<or> map_of body ''ingredients'' = Some (JStr []))
   \<and> process_ingredients e d body = (d', r) \<longrightarrow>
     r = Reply 400 (error_body
           (''Lista de ingredientes '' @ [CHR 0xE9] @ '' obrigat'' @ [CHR 0xF3] @ ''ria''))
     \<and> d' = d \<and> pantry d' = pantry d \<and> calls d' = calls d"
  by (auto simp: process_ingredients_def field_def)

theorem missing_ingredients_rejected_witness:
  "map_of ([] :: (string \<times> jsval) list) ''ingredients'' = None
   \<and> process_ingredients reliable arroz_db [] =
       (arroz_db, Reply 400 (error_body
           (''Lista de ingredientes '' @ [CHR 0xE9] @ '' obrigat'' @ [CHR 0xF3] @ ''ria'')))
   \<and> map_of [(''id'', JNum 7), (''ingredients'', JStr [])] ''ingredients'' = Some (JStr [])
   \<and> process_ingredients reliable arroz_db [(''id'', JNum 7), (''ingredients'', JStr [])] =
       (arroz_db, Reply 400 (error_body
           (''Lista de ingredientes '' @ [CHR 0xE9] @ '' obrigat'' @ [CHR 0xF3] @ ''ria'')))"
proof -
  let ?r = "Reply 400 (error_body
           (''Lista de ingredientes '' @ [CHR 0xE9] @ '' obrigat'' @ [CHR 0xF3] @ ''ria''))"
  have h1: "map_of ([] :: (string \<times> jsval) list) ''ingredients'' = None" by simp
  have h2: "map_of [(''id'', JNum 7), (''ingredients'', JStr [])] ''ingredients'' = Some (JStr [])"
    by simp
  obtain d1 r1 where a: "process_ingredients reliable arroz_db [] = (d1, r1)"
    by (cases "process_ingredients reliable arroz_db []") auto
  obtain d2 r2 where b:
    "process_ingredients reliable arroz_db [(''id'', JNum 7), (''ingredients'', JStr [])] = (d2, r2)"
    by (cases "process_ingredients reliable arroz_db [(''id'', JNum 7), (''ingredients'', JStr [])]") auto
  from missing_ingredients_rejected [of "[]" reliable arroz_db d1 r1] h1 a
  have a': "r1 = ?r \<and> d1 = arroz_db" by blast
  from missing_ingredients_rejected [of "[(''id'', JNum 7), (''ingredients'', JStr [])]"
      reliable arroz_db d2 r2] h2 b
  have b': "r2 = ?r \<and> d2 = arroz_db" by blast
  from h1 h2 a a' b b' show ?thesis by simp
qed

section \<open>The pantry upsert\<close>

lemma post_pantry_stored:
  assumes "truthy (field body ''ingredient'')" and "faults e (length (calls d)) = None"
  shows "post_pantry e d body =
     (d\<lparr>calls := calls d @ [InsertOrReplacePantry (text_param e (field body ''ingredient''))
                              (truthy (field body ''has_item''))],
        pantry := filter (\<lambda>r. ingredient r \<noteq> text_param e (field body ''ingredient'')) (pantry d) @
          [\<lparr>row_id = next_rowid d, ingredient = text_param e (field body ''ingredient''),
            has_item = Some (truthy (field body ''has_item'')),
            created_at = timestamps e (length (calls d))\<rparr>],
        seq := next_rowid d\<rparr>,
      Reply 200 (message_body ''Item da despensa atualizado com sucesso!''))"
  using assms by (simp add: post_pantry_def db_run_insert_or_replace_def Let_def)

lemma post_pantry_200:
  assumes "post_pantry e d body = (d', Reply 200 m)"
  shows "truthy (field body ''ingredient'')" and "faults e (length (calls d)) = None"
  using assms
  by (auto simp: post_pantry_def db_run_insert_or_replace_def Let_def
           split: if_splits option.splits)

lemma rows_of_replaced:
  "filter (\<lambda>r. ingredient r = k) (filter (\<lambda>r. ingredient r \<noteq> k) rows @ [row\<lparr>ingredient := k\<rparr>])
     = [row\<lparr>ingredient := k\<rparr>]"
  by (induction rows) auto

text \<open>
  Claim C9. An upsert request of src/server.js whose \<open>has_item\<close> is absent, or any
  other falsy value, and which the storage layer accepts, leaves exactly one row for
  its ingredient, with \<open>has_item = false\<close> (0) and not with the default \<open>true\<close> (1) that
  the table declares: the row is a shopping-list item.
\<close>

theorem upsert_without_has_item:
  "truthy (field body ''ingredient'') \<and> \<not> truthy (field body ''has_item'')
   \<and> faults e (length (calls d)) = None \<longrightarrow>
     (\<exists>d' row.
        post_pantry e d body =
          (d', Reply 200 (message_body ''Item da despensa atualizado com sucesso!''))
        \<and> rows_of d' (text_param e (field body ''ingredient'')) = [row]
        \<and> ingredient row = text_param e (field body ''ingredient'')
        \<and> has_item row = Some False
        \<and> has_item row \<noteq> has_item_default)"
proof
  assume a: "truthy (field body ''ingredient'') \<and> \<not> truthy (field body ''has_item'')
   \<and> faults e (length (calls d)) = None"
  let ?k = "text_param e (field body ''ingredient'')"
  let ?row = "\<lparr>row_id = next_rowid d, ingredient = ?k, has_item = Some False,
               created_at = timestamps e (length (calls d))\<rparr>"
  let ?d' = "d\<lparr>calls := calls d @ [InsertOrReplacePantry ?k False],
        pantry := filter (\<lambda>r. ingredient r \<noteq> ?k) (pantry d) @ [?row],
        seq := next_rowid d\<rparr>"
  from a post_pantry_stored [of body e d]
  have run: "post_pantry e d body =
      (?d', Reply 200 (message_body ''Item da despensa atualizado com sucesso!''))" by simp
  have "rows_of ?d' ?k = [?row]"
    using rows_of_replaced [of ?k "pantry d" ?row] by (simp add: rows_of_def)
  with run show "\<exists>d' row.
        post_pantry e d body =
          (d', Reply 200 (message_body ''Item da despensa atualizado com sucesso!''))
        \<and> rows_of d' ?k = [row] \<and> ingredient row = ?k
        \<and> has_item row = Some False
        \<and> has_item row \<noteq> has_item_default"
    by (intro exI [of _ ?d'] exI [of _ ?row]) (simp add: has_item_default_def)
qed

theorem upsert_without_has_item_witness:
  "truthy (field [(''ingredient'', JStr ''leite'')] ''ingredient'')
   \<and> \<not> truthy (field [(''ingredient'', JStr ''leite'')] ''has_item'')
   \<and> faults reliable (length (calls arroz_db)) = None
   \<and> post_pantry reliable arroz_db [(''ingredient'', JStr ''leite'')] =
       (\<lparr>pantry = [\<lparr>row_id = 1, ingredient = ''arroz'', has_item = Some True, created_at = 0\<rparr>,
                   \<lparr>row_id = 2, ingredient = ''leite'', has_item = Some False, created_at = 1000\<rparr>],
         seq = 2, calls = [InsertOrReplacePantry ''leite'' False]\<rparr>,
        Reply 200 (message_body ''Item da despensa atualizado com sucesso!''))
   \<and> rows_of
       \<lparr>pantry = [\<lparr>row_id = 1, ingredient = ''arroz'', has_item = Some True, created_at = 0\<rparr>,
                   \<lparr>row_id = 2, ingredient = ''leite'', has_item = Some False, created_at = 1000\<rparr>],
         seq = 2, calls = [InsertOrReplacePantry ''leite'' False]\<rparr>
       (text_param reliable (field [(''ingredient'', JStr ''leite'')] ''ingredient''))
       = [\<lparr>row_id = 2, ingredient = ''leite'', has_item = Some False, created_at = 1000\<rparr>]
   \<and> Some False \<noteq> has_item_default"
proof -
  let ?body = "[(''ingredient'', JStr ''leite'')]"
  let ?d' = "\<lparr>pantry = [\<lparr>row_id = 1, ingredient = ''arroz'', has_item = Some True, created_at = 0\<rparr>,
                   \<lparr>row_id = 2, ingredient = ''leite'', has_item = Some False, created_at = 1000\<rparr>],
         seq = 2, calls = [InsertOrReplacePantry ''leite'' False]\<rparr>"
  have h1: "truthy (field ?body ''ingredient'')" by code_simp
  have h2: "\<not> truthy (field ?body ''has_item'')" by code_simp
  have h3: "faults reliable (length (calls arroz_db)) = None" by code_simp
  have run: "post_pantry reliable arroz_db ?body =
      (?d', Reply 200 (message_body ''Item da despensa atualizado com sucesso!''))" by code_simp
  have rows: "rows_of ?d' (text_param reliable (field ?body ''ingredient''))
       = [\<lparr>row_id = 2, ingredient = ''leite'', has_item = Some False, created_at = 1000\<rparr>]"
    by code_simp
  from upsert_without_has_item [of ?body reliable arroz_db] h1 h2 h3
  obtain d' row where "post_pantry reliable arroz_db ?body =
          (d', Reply 200 (message_body ''Item da despensa atualizado com sucesso!''))"
    and "rows_of d' (text_param reliable (field ?body ''ingredient'')) = [row]"
    and "has_item row = Some False" and "has_item row \<noteq> has_item_default" by blast
  then have "Some False \<noteq> has_item_default" by simp
  with h1 h2 h3 run rows show ?thesis by blast
qed

section \<open>The upsert of the two servers\<close>

lemma map_of_rows_other:
  "x \<noteq> k \<Longrightarrow>
     map_of (map (\<lambda>r. (ingredient r, has_item r)) (filter (\<lambda>r. ingredient r \<noteq> k) rows)) x
       = map_of (map (\<lambda>r. (ingredient r, has_item r)) rows) x"
  by (induction rows) auto

lemma map_of_rows_removed:
  "map_of (map (\<lambda>r. (ingredient r, has_item r)) (filter (\<lambda>r. ingredient r \<noteq> k) rows)) k = None"
  by (induction rows) auto

lemma availability_replaced:
  assumes "ingredient row = k"
  shows "map_of (map (\<lambda>r. (ingredient r, has_item r))
            (filter (\<lambda>r. ingredient r \<noteq> k) rows @ [row]))
         = (map_of (map (\<lambda>r. (ingredient r, has_item r)) rows))(k \<mapsto> has_item row)"
proof
  fix x
  show "map_of (map (\<lambda>r. (ingredient r, has_item r))
            (filter (\<lambda>r. ingredient r \<noteq> k) rows @ [row])) x
         = ((map_of (map (\<lambda>r. (ingredient r, has_item r)) rows))(k \<mapsto> has_item row)) x"
  proof (cases "x = k")
    case True
    with assms show ?thesis
      by (simp add: map_of_append map_add_def map_of_rows_removed)
  next
    case False
    with assms show ?thesis
      by (simp add: map_of_append map_add_def map_of_rows_other split: option.splits)
  qed
qed

lemma map_of_rows_updated_other:
  "x \<noteq> k \<Longrightarrow>
     map_of (map (\<lambda>r. (ingredient r, has_item r))
        (map (\<lambda>r. if ingredient r = k then r\<lparr>has_item := v\<rparr> else r) rows)) x
       = map_of (map (\<lambda>r. (ingredient r, has_item r)) rows) x"
  by (induction rows) auto

lemma map_of_rows_updated_key:
  "k \<in> set (map ingredient rows) \<Longrightarrow>
     map_of (map (\<lambda>r. (ingredient r, has_item r))
        (map (\<lambda>r. if ingredient r = k then r\<lparr>has_item := v\<rparr> else r) rows)) k = Some v"
  by (induction rows) auto

lemma availability_updated:
  assumes "k \<in> set (map ingredient rows)"
  shows "map_of (map (\<lambda>r. (ingredient r, has_item r))
            (map (\<lambda>r. if ingredient r = k then r\<lparr>has_item := v\<rparr> else r) rows))
         = (map_of (map (\<lambda>r. (ingredient r, has_item r)) rows))(k \<mapsto> v)"
proof
  fix x
  show "map_of (map (\<lambda>r. (ingredient r, has_item r))
            (map (\<lambda>r. if ingredient r = k then r\<lparr>has_item := v\<rparr> else r) rows)) x
         = ((map_of (map (\<lambda>r. (ingredient r, has_item r)) rows))(k \<mapsto> v)) x"
  proof (cases "x = k")
    case True
    with assms show ?thesis using map_of_rows_updated_key [of k rows v] by simp
  next
    case False
    then show ?thesis using map_of_rows_updated_other [of x k v rows] by simp
  qed
qed

lemma availability_appended:
  assumes "k \<notin> set (map ingredient rows)" and "ingredient row = k"
  shows "map_of (map (\<lambda>r. (ingredient r, has_item r)) (rows @ [row]))
         = (map_of (map (\<lambda>r. (ingredient r, has_item r)) rows))(k \<mapsto> has_item row)"
  using assms by (induction rows) (auto simp: fun_eq_iff)

lemma fold_max_ge: "a \<le> fold max xs (a::nat)" "\<forall>x\<in>set xs. x \<le> fold max xs a"
proof -
  have "a \<le> fold max xs a \<and> (\<forall>x\<in>set xs. x \<le> fold max xs a)"
  proof (induction xs arbitrary: a)
    case Nil
    show ?case by simp
  next
    case (Cons y ys)
    from Cons [of "max y a"] show ?case by auto
  qed
  then show "a \<le> fold max xs a" and "\<forall>x\<in>set xs. x \<le> fold max xs a" by simp_all
qed

lemma next_rowid_fresh: "r \<in> set (pantry d) \<Longrightarrow> row_id r < next_rowid d"
  using fold_max_ge(2) [of "map row_id (pantry d)" "seq d"]
  by (auto simp: next_rowid_def less_Suc_eq_le)

lemma rows_of_updated:
  "filter (\<lambda>r. ingredient r = k) (map (\<lambda>r. if ingredient r = k then r\<lparr>has_item := v\<rparr> else r) rows)
     = map (\<lambda>r. r\<lparr>has_item := v\<rparr>) (filter (\<lambda>r. ingredient r = k) rows)"
  by (induction rows) auto

lemma post_pantry_production_200:
  assumes "post_pantry_production e d body = (d', Reply 200 m)"
    and "field body ''ingredient'' = JStr k" and "field body ''has_item'' = JBool b"
  shows "k \<noteq> []" and "faults e (length (calls d)) = None"
    and "has_row d k \<longrightarrow>
           pantry d' = map (\<lambda>r. if ingredient r = k then r\<lparr>has_item := Some b\<rparr> else r) (pantry d)"
    and "\<not> has_row d k \<longrightarrow>
           pantry d' = pantry d @ [\<lparr>row_id = Suc (seq d), ingredient = k, has_item = Some b,
                                   created_at = timestamps e (length (calls d))\<rparr>]"
  using assms
  by (auto simp: post_pantry_production_def pool_query_upsert_def boolean_param_def
                 text_param_def Let_def split: if_splits option.splits)

lemma accepted_upserts_agree:
  "field body ''ingredient'' = JStr k \<and> field body ''has_item'' = JBool b
   \<and> availability ds = availability dp
   \<and> post_pantry e ds body = (ds', Reply 200 m)
   \<and> post_pantry_production e' dp body = (dp', Reply 200 m') \<longrightarrow>
     availability ds' = availability dp'
     \<and> availability ds' = (availability ds)(k \<mapsto> Some b)
     \<and> rows_of ds' k = [\<lparr>row_id = next_rowid ds, ingredient = k, has_item = Some b,
                          created_at = timestamps e (length (calls ds))\<rparr>]
     \<and> list_all (\<lambda>old. row_id old < next_rowid ds) (pantry ds)
     \<and> (has_row dp k \<longrightarrow>
          rows_of dp' k = map (\<lambda>r. r\<lparr>has_item := Some b\<rparr>) (rows_of dp k)
          \<and> map row_id (pantry dp') = map row_id (pantry dp)
          \<and> map created_at (pantry dp') = map created_at (pantry dp)
          \<and> map ingredient (pantry dp') = map ingredient (pantry dp))"
proof
  assume a: "field body ''ingredient'' = JStr k \<and> field body ''has_item'' = JBool b
   \<and> availability ds = availability dp
   \<and> post_pantry e ds body = (ds', Reply 200 m)
   \<and> post_pantry_production e' dp body = (dp', Reply 200 m')"
  let ?row = "\<lparr>row_id = next_rowid ds, ingredient = k, has_item = Some b,
               created_at = timestamps e (length (calls ds))\<rparr>"
  from a post_pantry_200 [of e ds body ds' m]
  have ok: "truthy (field body ''ingredient'')" "faults e (length (calls ds)) = None" by simp_all
  from a post_pantry_stored [OF ok]
  have ds': "pantry ds' = filter (\<lambda>r. ingredient r \<noteq> k) (pantry ds) @ [?row]"
    by (auto simp: text_param_def)
  then have s: "availability ds' = (availability ds)(k \<mapsto> Some b)"
    using availability_replaced [of ?row k "pantry ds"] by (simp add: availability_def)
  from a post_pantry_production_200 [of e' dp body dp' m' k b]
  have upd: "has_row dp k \<longrightarrow>
           pantry dp' = map (\<lambda>r. if ingredient r = k then r\<lparr>has_item := Some b\<rparr> else r) (pantry dp)"
    and ins: "\<not> has_row dp k \<longrightarrow>
           pantry dp' = pantry dp @ [\<lparr>row_id = Suc (seq dp), ingredient = k, has_item = Some b,
                                   created_at = timestamps e' (length (calls dp))\<rparr>]"
    by simp_all
  have p: "availability dp' = (availability dp)(k \<mapsto> Some b)"
  proof (cases "has_row dp k")
    case True
    with upd availability_updated [of k "pantry dp" "Some b"] show ?thesis
      by (simp add: availability_def has_row_def)
  next
    case False
    with ins availability_appended [of k "pantry dp"
        "\<lparr>row_id = Suc (seq dp), ingredient = k, has_item = Some b,
          created_at = timestamps e' (length (calls dp))\<rparr>"]
    show ?thesis by (simp add: availability_def has_row_def)
  qed
  from ds' have rows: "rows_of ds' k = [?row]"
    using rows_of_replaced [of k "pantry ds" ?row] by (simp add: rows_of_def)
  have fresh: "list_all (\<lambda>old. row_id old < next_rowid ds) (pantry ds)"
    by (simp add: list_all_iff next_rowid_fresh)
  have inplace: "has_row dp k \<longrightarrow>
          rows_of dp' k = map (\<lambda>r. r\<lparr>has_item := Some b\<rparr>) (rows_of dp k)
          \<and> map row_id (pantry dp') = map row_id (pantry dp)
          \<and> map created_at (pantry dp') = map created_at (pantry dp)
          \<and> map ingredient (pantry dp') = map ingredient (pantry dp)"
  proof
    assume "has_row dp k"
    with upd have eq: "pantry dp' =
        map (\<lambda>r. if ingredient r = k then r\<lparr>has_item := Some b\<rparr> else r) (pantry dp)" by simp
    then show "rows_of dp' k = map (\<lambda>r. r\<lparr>has_item := Some b\<rparr>) (rows_of dp k)
          \<and> map row_id (pantry dp') = map row_id (pantry dp)
          \<and> map created_at (pantry dp') = map created_at (pantry dp)
          \<and> map ingredient (pantry dp') = map ingredient (pantry dp)"
      by (simp add: rows_of_def rows_of_updated comp_def if_distrib cong: if_cong)
  qed
  from a s p rows fresh inplace
  show "availability ds' = availability dp'
     \<and> availability ds' = (availability ds)(k \<mapsto> Some b)
     \<and> rows_of ds' k = [?row]
     \<and> list_all (\<lambda>old. row_id old < next_rowid ds) (pantry ds)
     \<and> (has_row dp k \<longrightarrow>
          rows_of dp' k = map (\<lambda>r. r\<lparr>has_item := Some b\<rparr>) (rows_of dp k)
          \<and> map row_id (pantry dp') = map row_id (pantry dp)
          \<and> map created_at (pantry dp') = map created_at (pantry dp)
          \<and> map ingredient (pantry dp') = map ingredient (pantry dp))"
    by simp
qed

lemma sequence_ahead_fresh:
  "sequence_ahead d \<Longrightarrow> Suc (seq d) \<notin> set (map row_id (pantry d))"
  by (auto simp: sequence_ahead_def list_all_iff)

lemma post_pantry_production_accepts:
  assumes "field body ''ingredient'' = JStr k" and "k \<noteq> []"
    and "field body ''has_item'' = JBool b"
    and "faults e (length (calls d)) = None" and "sequence_ahead d"
  shows "post_pantry_production e d body =
     (d\<lparr>calls := calls d @ [InsertOnConflictUpdatePantry k (Some b)],
        pantry := (if has_row d k
                   then map (\<lambda>r. if ingredient r = k then r\<lparr>has_item := Some b\<rparr> else r) (pantry d)
                   else pantry d @ [\<lparr>row_id = Suc (seq d), ingredient = k, has_item = Some b,
                                     created_at = timestamps e (length (calls d))\<rparr>]),
        seq := Suc (seq d)\<rparr>,
      Reply 200 (message_body ''Item da despensa atualizado com sucesso!''))"
  using assms sequence_ahead_fresh [of d]
  by (simp add: post_pantry_production_def pool_query_upsert_def boolean_param_def
                text_param_def Let_def)

lemma post_pantry_production_sequence_ahead:
  assumes "sequence_ahead d" and "post_pantry_production e d body = (d', r)"
  shows "sequence_ahead d'"
  using assms
proof -
  from assms(1) have le: "\<And>x. x \<in> set (pantry d) \<Longrightarrow> row_id x \<le> Suc (seq d)"
    by (auto simp: sequence_ahead_def list_all_iff intro: le_SucI)
  from assms show ?thesis
    by (auto simp: post_pantry_production_def pool_query_upsert_def Let_def sequence_ahead_def
                   list_all_iff le
             split: if_splits option.splits sum.splits)
qed

text \<open>
  Claim C10. Take an upsert request with a string key and a boolean \<open>has_item\<close>, a
  database of the SQLite server and one of the PostgreSQL server that give the same
  mapping from ingredient to \<open>has_item\<close>, the sequence of the second not behind its
  ids, and let the statement of neither fail in the storage layer. Then both servers
  accept the request (status 200), for a key that has a row and for a new key alike, and
  the two databases again give the same mapping, which is the old one with the key set
  to the boolean. They differ in the row of a key that had one: the SQLite server has
  deleted it and inserted a row with a new id, different from the id of every row there
  was, and the timestamp of the statement; the PostgreSQL server has kept every row in
  its place, with its id and timestamp, and has only changed \<open>has_item\<close>. For a new
  key the PostgreSQL server appends one row, with the next id of the sequence.
\<close>

theorem upsert_variants_agree:
  "field body ''ingredient'' = JStr k \<and> k \<noteq> [] \<and> field body ''has_item'' = JBool b
   \<and> availability ds = availability dp
   \<and> faults e (length (calls ds)) = None \<and> faults e' (length (calls dp)) = None
   \<and> sequence_ahead dp \<longrightarrow>
     (\<exists>ds' dp'.
        post_pantry e ds body =
          (ds', Reply 200 (message_body ''Item da despensa atualizado com sucesso!''))
        \<and> post_pantry_production e' dp body =
          (dp', Reply 200 (message_body ''Item da despensa atualizado com sucesso!''))
        \<and> availability ds' = availability dp'
        \<and> availability ds' = (availability ds)(k \<mapsto> Some b)
        \<and> rows_of ds' k = [\<lparr>row_id = next_rowid ds, ingredient = k, has_item = Some b,
                             created_at = timestamps e (length (calls ds))\<rparr>]
        \<and> list_all (\<lambda>old. row_id old < next_rowid ds) (pantry ds)
        \<and> (has_row dp k \<longrightarrow>
             rows_of dp' k = map (\<lambda>r. r\<lparr>has_item := Some b\<rparr>) (rows_of dp k)
             \<and> map row_id (pantry dp') = map row_id (pantry dp)
             \<and> map created_at (pantry dp') = map created_at (pantry dp)
             \<and> map ingredient (pantry dp') = map ingredient (pantry dp))
        \<and> (\<not> has_row dp k \<longrightarrow>
             pantry dp' = pantry dp @
               [\<lparr>row_id = Suc (seq dp), ingredient = k, has_item = Some b,
                 created_at = timestamps e' (length (calls dp))\<rparr>])
        \<and> sequence_ahead dp')"
proof
  assume a: "field body ''ingredient'' = JStr k \<and> k \<noteq> [] \<and> field body ''has_item'' = JBool b
   \<and> availability ds = availability dp
   \<and> faults e (length (calls ds)) = None \<and> faults e' (length (calls dp)) = None
   \<and> sequence_ahead dp"
  let ?m = "message_body ''Item da despensa atualizado com sucesso!''"
  from a have t: "truthy (field body ''ingredient'')" by simp
  from a post_pantry_stored [OF t, of e ds]
  obtain ds' where s: "post_pantry e ds body = (ds', Reply 200 ?m)" by simp
  from a post_pantry_production_accepts [of body k b e' dp]
  obtain dp' where p: "post_pantry_production e' dp body = (dp', Reply 200 ?m)"
    and rows: "pantry dp' = (if has_row dp k
                   then map (\<lambda>r. if ingredient r = k then r\<lparr>has_item := Some b\<rparr> else r) (pantry dp)
                   else pantry dp @ [\<lparr>row_id = Suc (seq dp), ingredient = k, has_item = Some b,
                                     created_at = timestamps e' (length (calls dp))\<rparr>])"
    by simp
  from a p have ahead: "sequence_ahead dp'"
    using post_pantry_production_sequence_ahead [of dp e' body dp'] by simp
  from rows have new: "\<not> has_row dp k \<longrightarrow>
             pantry dp' = pantry dp @
               [\<lparr>row_id = Suc (seq dp), ingredient = k, has_item = Some b,
                 created_at = timestamps e' (length (calls dp))\<rparr>]" by simp
  from a s p accepted_upserts_agree [of body k b ds dp e ds' ?m e' dp' ?m]
  have "availability ds' = availability dp'
        \<and> availability ds' = (availability ds)(k \<mapsto> Some b)
        \<and> rows_of ds' k = [\<lparr>row_id = next_rowid ds, ingredient = k, has_item = Some b,
                             created_at = timestamps e (length (calls ds))\<rparr>]
        \<and> list_all (\<lambda>old. row_id old < next_rowid ds) (pantry ds)
        \<and> (has_row dp k \<longrightarrow>
             rows_of dp' k = map (\<lambda>r. r\<lparr>has_item := Some b\<rparr>) (rows_of dp k)
             \<and> map row_id (pantry dp') = map row_id (pantry dp)
             \<and> map created_at (pantry dp') = map created_at (pantry dp)
             \<and> map ingredient (pantry dp') = map ingredient (pantry dp))"
    by blast
  with s p new ahead show "\<exists>ds' dp'.
        post_pantry e ds body = (ds', Reply 200 ?m)
        \<and> post_pantry_production e' dp body = (dp', Reply 200 ?m)
        \<and> availability ds' = availability dp'
        \<and> availability ds' = (availability ds)(k \<mapsto> Some b)
        \<and> rows_of ds' k = [\<lparr>row_id = next_rowid ds, ingredient = k, has_item = Some b,
                             created_at = timestamps e (length (calls ds))\<rparr>]
        \<and> list_all (\<lambda>old. row_id old < next_rowid ds) (pantry ds)
        \<and> (has_row dp k \<longrightarrow>
             rows_of dp' k = map (\<lambda>r. r\<lparr>has_item := Some b\<rparr>) (rows_of dp k)
             \<and> map row_id (pantry dp') = map row_id (pantry dp)
             \<and> map created_at (pantry dp') = map created_at (pantry dp)
             \<and> map ingredient (pantry dp') = map ingredient (pantry dp))
        \<and> (\<not> has_row dp k \<longrightarrow>
             pantry dp' = pantry dp @
               [\<lparr>row_id = Suc (seq dp), ingredient = k, has_item = Some b,
                 created_at = timestamps e' (length (calls dp))\<rparr>])
        \<and> sequence_ahead dp'"
    by blast
qed

theorem upsert_variants_agree_witness:
  "field [(''ingredient'', JStr ''arroz''), (''has_item'', JBool False)] ''ingredient'' = JStr ''arroz''
   \<and> field [(''ingredient'', JStr ''arroz''), (''has_item'', JBool False)] ''has_item'' = JBool False
   \<and> faults reliable (length (calls arroz_db)) = None
   \<and> sequence_ahead arroz_db
   \<and> has_row arroz_db ''arroz''
   \<and> post_pantry reliable arroz_db [(''ingredient'', JStr ''arroz''), (''has_item'', JBool False)] =
       (\<lparr>pantry = [\<lparr>row_id = 2, ingredient = ''arroz'', has_item = Some False, created_at = 1000\<rparr>],
         seq = 2, calls = [InsertOrReplacePantry ''arroz'' False]\<rparr>,
        Reply 200 (message_body ''Item da despensa atualizado com sucesso!''))
   \<and> post_pantry_production reliable arroz_db
         [(''ingredient'', JStr ''arroz''), (''has_item'', JBool False)] =
       (\<lparr>pantry = [\<lparr>row_id = 1, ingredient = ''arroz'', has_item = Some False, created_at = 0\<rparr>],
         seq = 2, calls = [InsertOnConflictUpdatePantry ''arroz'' (Some False)]\<rparr>,
        Reply 200 (message_body ''Item da despensa atualizado com sucesso!''))
   \<and> availability
        \<lparr>pantry = [\<lparr>row_id = 2, ingredient = ''arroz'', has_item = Some False, created_at = 1000\<rparr>],
         seq = 2, calls = [InsertOrReplacePantry ''arroz'' False]\<rparr>
     = availability
        \<lparr>pantry = [\<lparr>row_id = 1, ingredient = ''arroz'', has_item = Some False, created_at = 0\<rparr>],
         seq = 2, calls = [InsertOnConflictUpdatePantry ''arroz'' (Some False)]\<rparr>
   \<and> map row_id (pantry
        \<lparr>pantry = [\<lparr>row_id = 1, ingredient = ''arroz'', has_item = Some False, created_at = 0\<rparr>],
         seq = 2, calls = [InsertOnConflictUpdatePantry ''arroz'' (Some False)]\<rparr>)
     = map row_id (pantry arroz_db)
   \<and> next_rowid arroz_db = 2
   \<and> field [(''ingredient'', JStr ''leite''), (''has_item'', JBool True)] ''ingredient'' = JStr ''leite''
   \<and> field [(''ingredient'', JStr ''leite''), (''has_item'', JBool True)] ''has_item'' = JBool True
   \<and> \<not> has_row arroz_db ''leite''
   \<and> post_pantry reliable arroz_db [(''ingredient'', JStr ''leite''), (''has_item'', JBool True)] =
       (\<lparr>pantry = [\<lparr>row_id = 1, ingredient = ''arroz'', has_item = Some True, created_at = 0\<rparr>,
                   \<lparr>row_id = 2, ingredient = ''leite'', has_item = Some True, created_at = 1000\<rparr>],
         seq = 2, calls = [InsertOrReplacePantry ''leite'' True]\<rparr>,
        Reply 200 (message_body ''Item da despensa atualizado com sucesso!''))
   \<and> post_pantry_production reliable arroz_db
         [(''ingredient'', JStr ''leite''), (''has_item'', JBool True)] =
       (\<lparr>pantry = [\<lparr>row_id = 1, ingredient = ''arroz'', has_item = Some True, created_at = 0\<rparr>,
                   \<lparr>row_id = 2, ingredient = ''leite'', has_item = Some True, created_at = 1000\<rparr>],
         seq = 2, calls = [InsertOnConflictUpdatePantry ''leite'' (Some True)]\<rparr>,
        Reply 200 (message_body ''Item da despensa atualizado com sucesso!''))
   \<and> availability
        \<lparr>pantry = [\<lparr>row_id = 1, ingredient = ''arroz'', has_item = Some True, created_at = 0\<rparr>,
                   \<lparr>row_id = 2, ingredient = ''leite'', has_item = Some True, created_at = 1000\<rparr>],
         seq = 2, calls = [InsertOrReplacePantry ''leite'' True]\<rparr>
     = (availability arroz_db)(''leite'' \<mapsto> Some True)"
proof -
  let ?m = "message_body ''Item da despensa atualizado com sucesso!''"
  let ?body = "[(''ingredient'', JStr ''arroz''), (''has_item'', JBool False)]"
  let ?ds = "\<lparr>pantry = [\<lparr>row_id = 2, ingredient = ''arroz'', has_item = Some False, created_at = 1000\<rparr>],
         seq = 2, calls = [InsertOrReplacePantry ''arroz'' False]\<rparr>"
  let ?dp = "\<lparr>pantry = [\<lparr>row_id = 1, ingredient = ''arroz'', has_item = Some False, created_at = 0\<rparr>],
         seq = 2, calls = [InsertOnConflictUpdatePantry ''arroz'' (Some False)]\<rparr>"
  let ?body2 = "[(''ingredient'', JStr ''leite''), (''has_item'', JBool True)]"
  let ?rows2 = "[\<lparr>row_id = 1, ingredient = ''arroz'', has_item = Some True, created_at = 0\<rparr>,
                 \<lparr>row_id = 2, ingredient = ''leite'', has_item = Some True, created_at = 1000\<rparr>]"
  let ?ds2 = "\<lparr>pantry = ?rows2, seq = 2, calls = [InsertOrReplacePantry ''leite'' True]\<rparr>"
  let ?dp2 = "\<lparr>pantry = ?rows2, seq = 2, calls = [InsertOnConflictUpdatePantry ''leite'' (Some True)]\<rparr>"
  have h1: "field ?body ''ingredient'' = JStr ''arroz''" by code_simp
  have h2: "field ?body ''has_item'' = JBool False" by code_simp
  have h3: "has_row arroz_db ''arroz''" by code_simp
  have h4: "post_pantry reliable arroz_db ?body = (?ds, Reply 200 ?m)" by code_simp
  have h5: "post_pantry_production reliable arroz_db ?body = (?dp, Reply 200 ?m)" by code_simp
  have h6: "next_rowid arroz_db = 2" by code_simp
  have f: "faults reliable (length (calls arroz_db)) = None" by code_simp
  have ahead: "sequence_ahead arroz_db" by code_simp
  have ne: "''arroz'' \<noteq> []" "''leite'' \<noteq> []" by simp_all
  have k1: "field ?body2 ''ingredient'' = JStr ''leite''" by code_simp
  have k2: "field ?body2 ''has_item'' = JBool True" by code_simp
  have k3: "\<not> has_row arroz_db ''leite''" by code_simp
  have k4: "post_pantry reliable arroz_db ?body2 = (?ds2, Reply 200 ?m)" by code_simp
  have k5: "post_pantry_production reliable arroz_db ?body2 = (?dp2, Reply 200 ?m)" by code_simp
  from upsert_variants_agree [of ?body "''arroz''" False arroz_db arroz_db reliable reliable]
    h1 h2 f ahead ne
  obtain ds' dp' where "post_pantry reliable arroz_db ?body = (ds', Reply 200 ?m)"
    and "post_pantry_production reliable arroz_db ?body = (dp', Reply 200 ?m)"
    and "availability ds' = availability dp'"
    and "has_row arroz_db ''arroz'' \<longrightarrow> map row_id (pantry dp') = map row_id (pantry arroz_db)"
    by blast
  with h3 h4 h5 have existing: "availability ?ds = availability ?dp
      \<and> map row_id (pantry ?dp) = map row_id (pantry arroz_db)"
    by simp
  from upsert_variants_agree [of ?body2 "''leite''" True arroz_db arroz_db reliable reliable]
    k1 k2 f ahead ne
  obtain ds2 dp2 where "post_pantry reliable arroz_db ?body2 = (ds2, Reply 200 ?m)"
    and "availability ds2 = (availability arroz_db)(''leite'' \<mapsto> Some True)"
    by blast
  with k4 have fresh: "availability ?ds2 = (availability arroz_db)(''leite'' \<mapsto> Some True)"
    by simp
  from h1 h2 f ahead h3 h4 h5 existing h6 k1 k2 k3 k4 k5 fresh show ?thesis by blast
qed

section \<open>Keys that differ only in case\<close>

text \<open>
  Both upserts and the reconciler keep the stored keys distinct as exact texts.
\<close>

lemma post_pantry_exactly_unique:
  assumes "exactly_unique d" and "post_pantry e d body = (d', r)"
  shows "exactly_unique d'"
proof (cases "truthy (field body ''ingredient'') \<and> faults e (length (calls d)) = None")
  case True
  with assms(2) post_pantry_stored [of body e d]
  have "pantry d' = filter (\<lambda>r. ingredient r \<noteq> text_param e (field body ''ingredient'')) (pantry d) @
          [\<lparr>row_id = next_rowid d, ingredient = text_param e (field body ''ingredient''),
            has_item = Some (truthy (field body ''has_item'')),
            created_at = timestamps e (length (calls d))\<rparr>]"
    by auto
  with assms(1) show ?thesis
    by (auto simp: exactly_unique_def distinct_map_filter)
next
  case False
  with assms(2) have "pantry d' = pantry d"
    by (auto simp: post_pantry_def db_run_insert_or_replace_def Let_def
             split: option.splits if_splits)
  with assms(1) show ?thesis by (simp add: exactly_unique_def)
qed

lemma process_ingredients_exactly_unique:
  assumes "exactly_unique d" and "process_ingredients e d body = (d', r)"
  shows "exactly_unique d'"
proof (cases "truthy (field body ''ingredients'')")
  case False
  with assms show ?thesis by (simp add: process_ingredients_def)
next
  case True
  show ?thesis
  proof (cases "field body ''ingredients''")
    case (JStr s)
    with True have ne: "s \<noteq> []" by simp
    obtain d1 c1 r1 where run: "process_each e d zero (ingredientList s) = (d1, c1, r1)"
      by (cases "process_each e d zero (ingredientList s)") auto
    with assms(2) JStr ne have "d' = d1"
      by (auto simp: process_ingredients_string processNext_process_each finish_def
               split: option.splits)
    with process_each_rows [OF run] obtain news where
      "pantry d' = pantry d @ news"
      "set (map ingredient news) \<subseteq> set (ingredientList s) - set (map ingredient (pantry d))"
      "distinct (map ingredient news)" by blast
    with assms(1) show ?thesis by (auto simp: exactly_unique_def)
  qed (use assms True in \<open>simp_all add: process_ingredients_def\<close>)
qed

text \<open>
  Claim C6, at the input where the code departs from it. The reconciler looks up and
  inserts normalized keys only, but the upsert handler of either server stores the key
  as it is sent: after an upsert of \<open>Arroz\<close> on a pantry that holds \<open>arroz\<close> there
  are two rows whose keys differ only in case, and after an upsert of \<open>Arroz\<close> (on
  hand) on an empty pantry a reconciliation of \<open>arroz\<close> does not find it and adds a
  second row, a shopping-list item.
\<close>

theorem upsert_stores_key_unnormalized:
  "case_insensitive_unique arroz_db
   \<and> post_pantry reliable arroz_db [(''ingredient'', JStr ''Arroz''), (''has_item'', JBool True)] =
       (\<lparr>pantry = [\<lparr>row_id = 1, ingredient = ''arroz'', has_item = Some True, created_at = 0\<rparr>,
                   \<lparr>row_id = 2, ingredient = ''Arroz'', has_item = Some True, created_at = 1000\<rparr>],
         seq = 2, calls = [InsertOrReplacePantry ''Arroz'' True]\<rparr>,
        Reply 200 (message_body ''Item da despensa atualizado com sucesso!''))
   \<and> \<not> case_insensitive_unique
         (fst (post_pantry reliable arroz_db
                 [(''ingredient'', JStr ''Arroz''), (''has_item'', JBool True)]))
   \<and> \<not> case_insensitive_unique
         (fst (post_pantry_production reliable arroz_db
                 [(''ingredient'', JStr ''Arroz''), (''has_item'', JBool True)]))
   \<and> process_ingredients reliable
         (fst (post_pantry reliable empty_db
                 [(''ingredient'', JStr ''Arroz''), (''has_item'', JBool True)]))
         [(''ingredients'', JStr ''arroz'')] =
       (\<lparr>pantry = [\<lparr>row_id = 1, ingredient = ''Arroz'', has_item = Some True, created_at = 1000\<rparr>,
                   \<lparr>row_id = 2, ingredient = ''arroz'', has_item = Some False, created_at = 1002\<rparr>],
         seq = 2,
         calls = [InsertOrReplacePantry ''Arroz'' True, SelectPantry ''arroz'',
                  InsertPantry ''arroz'']\<rparr>,
        Reply 200 (JObj [(''message'', JStr ''Processados 1 ingredientes''),
                         (''addedToShoppingList'', JNum 1),
                         (''ingredients'', JArr [JStr ''arroz''])]))"
  by code_simp

end
